theory Spec2Isabelle
  imports Complex_Main
begin

section \<open>Adaptive timings (network/adaptive-timings.ts)\<close>

text \<open>
  The ping monitor exposes two telemetry readings, both JavaScript numbers: the current
  latency in milliseconds and the estimated tick rate. They are modelled as reals.
\<close>

record PingMonitor =
  currentPing :: real
  tps :: real

text \<open>\<^verbatim>\<open>Math.round\<close> rounds to the nearest integer, ties towards plus infinity.\<close>

definition Math_round :: "real \<Rightarrow> int" where
  "Math_round v = \<lfloor>v + 1 / 2\<rfloor>"

definition digTimeout :: "PingMonitor \<Rightarrow> int" where
  "digTimeout pm =
     (let base = 6000;
          pingFactor = max 0 (currentPing pm * 2);
          tpsFactor = 20 / max 1 (tps pm)
      in min (Math_round ((base + pingFactor) * tpsFactor)) 30000)"

definition pathfindTimeout :: "PingMonitor \<Rightarrow> int" where
  "pathfindTimeout pm = (let base = 8000 in min (Math_round (base + currentPing pm * 3)) 30000)"

definition navigationTimeout :: "PingMonitor \<Rightarrow> int" where
  "navigationTimeout pm =
     (let base = 180000 in min (Math_round (base + currentPing pm * 10)) 300000)"

definition postDigWaitTicks :: "PingMonitor \<Rightarrow> nat" where
  "postDigWaitTicks pm =
     (if currentPing pm > 400 then 6
      else if currentPing pm > 200 then 4
      else if currentPing pm > 100 then 3
      else 2)"

definition interBlockDelay :: "PingMonitor \<Rightarrow> int" where
  "interBlockDelay pm = min (Math_round (max 0 ((currentPing pm - 50) * (4 / 10)))) 200"

definition speedMultiplier :: "PingMonitor \<Rightarrow> real" where
  "speedMultiplier pm =
     (if currentPing pm > 400 then 45 / 100
      else if currentPing pm > 200 then 55 / 100
      else if currentPing pm > 100 then 65 / 100
      else 8 / 10)"

definition shouldAutoPause :: "PingMonitor \<Rightarrow> bool" where
  "shouldAutoPause pm = (currentPing pm > 1000 \<or> tps pm < 5)"

definition stallTimeThreshold :: "PingMonitor \<Rightarrow> real" where
  "stallTimeThreshold pm = 3000 + currentPing pm * 2"

definition recoveryCooldown :: "PingMonitor \<Rightarrow> real" where
  "recoveryCooldown pm = 2000 + currentPing pm"

definition stuckTicksThreshold :: "PingMonitor \<Rightarrow> int" where
  "stuckTicksThreshold pm =
     (if currentPing pm > 300 then 5 else if currentPing pm > 150 then 4 else 3)"

definition minRecoveryLevel :: "PingMonitor \<Rightarrow> int" where
  "minRecoveryLevel pm =
     (if currentPing pm > 300 then 2 else if currentPing pm > 150 then 1 else 0)"

definition safedigTimeout :: "PingMonitor \<Rightarrow> real" where
  "safedigTimeout pm = min (5000 + currentPing pm * 2) 15000"

definition stuckCheckInterval :: "PingMonitor \<Rightarrow> int" where
  "stuckCheckInterval pm = 500"

definition rubberBandDistance :: "PingMonitor \<Rightarrow> real" where
  "rubberBandDistance pm =
     (if currentPing pm > 300 then 1 else if currentPing pm > 150 then 7 / 10 else 5 / 10)"

section \<open>Traversal planner (mining/zigzag-planner.ts)\<close>

text \<open>
  Block coordinates are integers. \<open>Vec3\<close> is the coordinate triple of the source; the
  fields \<open>min\<close> and \<open>max\<close> of a normalized area are named \<open>area_min\<close> and \<open>area_max\<close>.
\<close>

datatype Vec3 = Vec3 (vx: int) (vy: int) (vz: int)

record Area =
  corner1 :: Vec3
  corner2 :: Vec3

record NormalizedArea =
  area_min :: Vec3
  area_max :: Vec3

text \<open>\<^verbatim>\<open>MiningEngine.normalizeArea\<close>: componentwise minimum and maximum of the two corners.\<close>

definition normalizeArea :: "Area \<Rightarrow> NormalizedArea" where
  "normalizeArea a =
     \<lparr>area_min = Vec3 (min (vx (corner1 a)) (vx (corner2 a)))
                      (min (vy (corner1 a)) (vy (corner2 a)))
                      (min (vz (corner1 a)) (vz (corner2 a))),
      area_max = Vec3 (max (vx (corner1 a)) (vx (corner2 a)))
                      (max (vy (corner1 a)) (vy (corner2 a)))
                      (max (vz (corner1 a)) (vz (corner2 a)))\<rparr>"

text \<open>\<^verbatim>\<open>MiningEngine.areaSize\<close>: the product of the three extents.\<close>

definition areaSize :: "NormalizedArea \<Rightarrow> int" where
  "areaSize a =
     (vx (area_max a) - vx (area_min a) + 1) *
     (vy (area_max a) - vy (area_min a) + 1) *
     (vz (area_max a) - vz (area_min a) + 1)"

text \<open>
  The three nested \<^verbatim>\<open>for\<close> loops of \<^verbatim>\<open>generateZigzagPositions\<close>, innermost first. Each
  loop is a recursive function on its counter that threads the array \<open>positions\<close>;
  \<^verbatim>\<open>positions.push(v)\<close> appends at the end.
\<close>

function loop_x_up :: "int \<Rightarrow> NormalizedArea \<Rightarrow> int \<Rightarrow> int \<Rightarrow> Vec3 list \<Rightarrow> Vec3 list" where
  "loop_x_up x area y z positions =
     (if x \<le> vx (area_max area)
      then loop_x_up (x + 1) area y z (positions @ [Vec3 x y z])
      else positions)"
  by pat_completeness auto
termination
  by (relation "measure (\<lambda>(x, area, y, z, positions). nat (vx (area_max area) + 1 - x))") auto

function loop_x_down :: "int \<Rightarrow> NormalizedArea \<Rightarrow> int \<Rightarrow> int \<Rightarrow> Vec3 list \<Rightarrow> Vec3 list" where
  "loop_x_down x area y z positions =
     (if x \<ge> vx (area_min area)
      then loop_x_down (x - 1) area y z (positions @ [Vec3 x y z])
      else positions)"
  by pat_completeness auto
termination
  by (relation "measure (\<lambda>(x, area, y, z, positions). nat (x + 1 - vx (area_min area)))") auto

function loop_z :: "int \<Rightarrow> bool \<Rightarrow> NormalizedArea \<Rightarrow> int \<Rightarrow> Vec3 list \<Rightarrow> Vec3 list" where
  "loop_z z reverseX area y positions =
     (if z \<le> vz (area_max area)
      then loop_z (z + 1) (\<not> reverseX) area y
             (if reverseX
              then loop_x_down (vx (area_max area)) area y z positions
              else loop_x_up (vx (area_min area)) area y z positions)
      else positions)"
  by pat_completeness auto
termination
  by (relation "measure (\<lambda>(z, reverseX, area, y, positions). nat (vz (area_max area) + 1 - z))")
    auto

function loop_y :: "int \<Rightarrow> NormalizedArea \<Rightarrow> Vec3 list \<Rightarrow> Vec3 list" where
  "loop_y y area positions =
     (if y \<ge> vy (area_min area)
      then loop_y (y - 1) area (loop_z (vz (area_min area)) False area y positions)
      else positions)"
  by pat_completeness auto
termination
  by (relation "measure (\<lambda>(y, area, positions). nat (y + 1 - vy (area_min area)))") auto

declare loop_x_up.simps [simp del] loop_x_down.simps [simp del]
  loop_z.simps [simp del] loop_y.simps [simp del]

definition generateZigzagPositions :: "NormalizedArea \<Rightarrow> Vec3 list" where
  "generateZigzagPositions area = loop_y (vy (area_max area)) area []"

text \<open>
  The order as the specification words it: layers with \<open>y\<close> descending from the top, rows
  with \<open>z\<close> ascending inside a layer, and \<open>x\<close> ascending in the rows at an even distance
  from the first row of the layer and descending in the others.
\<close>

definition zigzag_row :: "NormalizedArea \<Rightarrow> int \<Rightarrow> int \<Rightarrow> Vec3 list" where
  "zigzag_row area y z =
     map (\<lambda>x. Vec3 x y z)
       (if even (z - vz (area_min area))
        then [vx (area_min area) .. vx (area_max area)]
        else rev [vx (area_min area) .. vx (area_max area)])"

definition zigzag_layer :: "NormalizedArea \<Rightarrow> int \<Rightarrow> Vec3 list" where
  "zigzag_layer area y =
     concat (map (zigzag_row area y) [vz (area_min area) .. vz (area_max area)])"

definition zigzag_order :: "NormalizedArea \<Rightarrow> Vec3 list" where
  "zigzag_order area =
     concat (map (zigzag_layer area) (rev [vy (area_min area) .. vy (area_max area)]))"

text \<open>The integer points of the box.\<close>

definition area_points :: "NormalizedArea \<Rightarrow> Vec3 set" where
  "area_points area =
     {p. vx (area_min area) \<le> vx p \<and> vx p \<le> vx (area_max area)
       \<and> vy (area_min area) \<le> vy p \<and> vy p \<le> vy (area_max area)
       \<and> vz (area_min area) \<le> vz p \<and> vz p \<le> vz (area_max area)}"

definition is_normalized :: "NormalizedArea \<Rightarrow> bool" where
  "is_normalized area =
     (vx (area_min area) \<le> vx (area_max area)
      \<and> vy (area_min area) \<le> vy (area_max area)
      \<and> vz (area_min area) \<le> vz (area_max area))"

text \<open>
  The row pushed at \<open>z\<close> by a pass of the middle loop that entered at \<open>z0\<close> with the flag
  \<open>reverseX = r\<close>: the flag has been toggled once per row since.
\<close>

definition row_from :: "bool \<Rightarrow> int \<Rightarrow> NormalizedArea \<Rightarrow> int \<Rightarrow> int \<Rightarrow> Vec3 list" where
  "row_from r z0 area y z =
     map (\<lambda>x. Vec3 x y z)
       (if r = even (z - z0)
        then rev [vx (area_min area) .. vx (area_max area)]
        else [vx (area_min area) .. vx (area_max area)])"

section \<open>Event bus (core/event-bus.ts)\<close>

text \<open>
  The events the engine and the recovery subsystem publish. The bus is modelled by the
  list of events emitted so far, oldest first.
\<close>

datatype BusEvent =
    MiningStarted NormalizedArea
  | MiningProgress int int
  | MiningPaused string
  | MiningResumed
  | MiningFinished
  | MiningError string
  | MiningBlockMined Vec3 string
  | InventoryFull
  | SafetyStuck int string
  | SafetyUnstuck

section \<open>Recovery ladder (safety/anti-stuck.ts): control state\<close>

text \<open>
  The fields of \<^verbatim>\<open>AntiStuck\<close> that the recovery dispatcher and the two monitors read and
  write. \<^verbatim>\<open>triggerRecovery\<close> and \<^verbatim>\<open>clearBlockingPath\<close> are asynchronous: between their
  suspension points other callbacks run. Where such a routine currently stands is kept in
  \<open>recovery_pc\<close> and \<open>clearing\<close>; every other field is a field of the class. The positions
  kept for stall, loop and safe-position bookkeeping do not influence the ladder and are
  supplied to the monitors as readings.
\<close>

record Stats =
  totalRecoveries :: int
  suffocations :: int
  stalls :: int
  rubberBands :: int
  loops :: int

datatype RecoveryPc =
    NotRunning
  | InLevel int
  | Rechecking

record AntiStuck =
  active :: bool
  recovering :: bool
  stuckTicks :: int
  lastMoveTime :: int
  recoveryLevel :: int
  lastRecoveryTime :: int
  consecutiveStucks :: int
  blockClearAttempted :: bool
  stats :: Stats
  as_emitted :: "BusEvent list"
  recovery_pc :: RecoveryPc
  clearing :: bool

definition MAX_RECOVERY_LEVEL :: int where
  "MAX_RECOVERY_LEVEL = 5"

definition zero_stats :: Stats where
  "zero_stats = \<lparr>totalRecoveries = 0, suffocations = 0, stalls = 0, rubberBands = 0, loops = 0\<rparr>"

text \<open>The field initialisers of the class.\<close>

definition antistuck_init :: AntiStuck where
  "antistuck_init =
     \<lparr>active = False, recovering = False, stuckTicks = 0, lastMoveTime = 0, recoveryLevel = 0,
      lastRecoveryTime = 0, consecutiveStucks = 0, blockClearAttempted = False,
      stats = zero_stats, as_emitted = [], recovery_pc = NotRunning, clearing = False\<rparr>"

text \<open>
  \<^verbatim>\<open>enable\<close> starts both monitors (\<^verbatim>\<open>startTickMonitor\<close> zeroes the stuck-tick counter,
  \<^verbatim>\<open>startStallMonitor\<close> stamps the last-move time); \<^verbatim>\<open>disable\<close> stops them and clears the
  ladder; \<^verbatim>\<open>reset\<close> clears the ladder and the statistics.
\<close>

definition enable :: "int \<Rightarrow> AntiStuck \<Rightarrow> AntiStuck" where
  "enable now s =
     (if active s then s
      else s\<lparr>active := True, stuckTicks := 0, lastMoveTime := now\<rparr>)"

definition disable :: "AntiStuck \<Rightarrow> AntiStuck" where
  "disable s =
     (if active s
      then s\<lparr>active := False, recoveryLevel := 0, consecutiveStucks := 0, stuckTicks := 0,
             blockClearAttempted := False\<rparr>
      else s)"

definition reset :: "int \<Rightarrow> AntiStuck \<Rightarrow> AntiStuck" where
  "reset now s =
     s\<lparr>recoveryLevel := 0, consecutiveStucks := 0, stuckTicks := 0,
       blockClearAttempted := False, lastMoveTime := now, stats := zero_stats\<rparr>"

text \<open>
  \<^verbatim>\<open>triggerRecovery\<close> up to its first suspension point: the re-entrancy guard, the
  cooldown guard, the bookkeeping, the floor raise to the adaptive minimum level, the
  \<^verbatim>\<open>safety:stuck\<close> event and the dispatch on the level. \<open>now\<close> is \<^verbatim>\<open>Date.now()\<close>.
\<close>

definition triggerRecovery :: "string \<Rightarrow> int \<Rightarrow> PingMonitor \<Rightarrow> AntiStuck \<Rightarrow> AntiStuck" where
  "triggerRecovery reason now pm s =
     (if recovering s then s
      else if real_of_int (now - lastRecoveryTime s) < recoveryCooldown pm then s
      else
        let s1 = s\<lparr>recovering := True,
                   lastRecoveryTime := now,
                   stats := (stats s)\<lparr>totalRecoveries := totalRecoveries (stats s) + 1\<rparr>,
                   consecutiveStucks := consecutiveStucks s + 1\<rparr>;
            minLevel = minRecoveryLevel pm;
            s2 = (if recoveryLevel s1 < minLevel then s1\<lparr>recoveryLevel := minLevel\<rparr> else s1)
        in s2\<lparr>as_emitted := as_emitted s2 @ [SafetyStuck (recoveryLevel s2) reason],
              recovery_pc := InLevel (recoveryLevel s2)\<rparr>)"

text \<open>
  The level routine that was dispatched returns. Levels 0 to 4 leave the ladder alone; the
  \<^verbatim>\<open>default\<close> branch is \<^verbatim>\<open>recoverLevel5_emergency\<close>, which returns at once when the bot has
  no entity and otherwise ends by resetting the level and the consecutive-stuck counter.
  Then the dispatcher sleeps 300 ms before the re-check.
\<close>

definition levelReturns :: "bool \<Rightarrow> AntiStuck \<Rightarrow> AntiStuck" where
  "levelReturns hasEntity s =
     (case recovery_pc s of
        InLevel l \<Rightarrow>
          (if l \<in> {0, 1, 2, 3, 4} then s\<lparr>recovery_pc := Rechecking\<rparr>
           else if hasEntity
           then s\<lparr>recoveryLevel := 0, consecutiveStucks := 0, recovery_pc := Rechecking\<rparr>
           else s\<lparr>recovery_pc := Rechecking\<rparr>)
      | NotRunning \<Rightarrow> s
      | Rechecking \<Rightarrow> s)"

text \<open>
  The re-check after the sleep: still obstructed escalates (capped), clear de-escalates
  (floored), zeroes the stuck-tick counter and emits \<^verbatim>\<open>safety:unstuck\<close>. The \<^verbatim>\<open>finally\<close>
  block drops the in-recovery flag.
\<close>

definition recheck :: "bool \<Rightarrow> AntiStuck \<Rightarrow> AntiStuck" where
  "recheck stillStuck s =
     (case recovery_pc s of
        Rechecking \<Rightarrow>
          (if stillStuck
           then s\<lparr>recoveryLevel := min (recoveryLevel s + 1) MAX_RECOVERY_LEVEL,
                  recovering := False, recovery_pc := NotRunning\<rparr>
           else s\<lparr>recoveryLevel := max 0 (recoveryLevel s - 1), stuckTicks := 0,
                  as_emitted := as_emitted s @ [SafetyUnstuck],
                  recovering := False, recovery_pc := NotRunning\<rparr>)
      | NotRunning \<Rightarrow> s
      | InLevel l \<Rightarrow> s)"

text \<open>The \<^verbatim>\<open>catch\<close> branch: a failure anywhere inside the \<^verbatim>\<open>try\<close> block escalates.\<close>

definition recoveryThrows :: "AntiStuck \<Rightarrow> AntiStuck" where
  "recoveryThrows s =
     (case recovery_pc s of
        NotRunning \<Rightarrow> s
      | InLevel l \<Rightarrow>
          s\<lparr>recoveryLevel := min (recoveryLevel s + 1) MAX_RECOVERY_LEVEL,
            recovering := False, recovery_pc := NotRunning\<rparr>
      | Rechecking \<Rightarrow>
          s\<lparr>recoveryLevel := min (recoveryLevel s + 1) MAX_RECOVERY_LEVEL,
            recovering := False, recovery_pc := NotRunning\<rparr>)"

text \<open>
  \<^verbatim>\<open>clearBlockingPath\<close>: refuses while a recovery runs or when nothing blocks the path,
  otherwise holds the in-recovery flag while it digs and drops it in its \<^verbatim>\<open>finally\<close>.
  \<open>blocking\<close> is the length of \<^verbatim>\<open>getBlockingBlocks()\<close>.
\<close>

definition clearBlockingPath_begin :: "nat \<Rightarrow> AntiStuck \<Rightarrow> AntiStuck" where
  "clearBlockingPath_begin blocking s =
     (if recovering s then s
      else if blocking = 0 then s
      else s\<lparr>recovering := True, clearing := True\<rparr>)"

definition clearBlockingPath_end :: "AntiStuck \<Rightarrow> AntiStuck" where
  "clearBlockingPath_end s =
     (if clearing s then s\<lparr>recovering := False, clearing := False\<rparr> else s)"

text \<open>
  The physics-tick listener. \<open>hasEntity\<close> is \<^verbatim>\<open>!!bot.entity\<close>, \<open>delta\<close> the distance to the
  position of the previous tick (absent on the first tick), \<open>overlapping\<close> the length of
  \<^verbatim>\<open>getOverlappingBlocks()\<close>. The listener exists exactly while the subsystem is active.
  Releasing the control inputs on a rubber-band and the periodic safe-position save touch
  no field of the ladder.
\<close>

record TickReading =
  tick_hasEntity :: bool
  tick_delta :: "real option"
  tick_overlapping :: nat
  tick_now :: int
  tick_pm :: PingMonitor

definition tickListener :: "TickReading \<Rightarrow> AntiStuck \<Rightarrow> AntiStuck" where
  "tickListener r s =
     (if active s \<and> tick_hasEntity r \<and> \<not> recovering s then
        let s1 = (case tick_delta r of
                    None \<Rightarrow> s
                  | Some delta \<Rightarrow>
                      if delta > rubberBandDistance (tick_pm r) \<and> delta < 20
                      then s\<lparr>stats := (stats s)\<lparr>rubberBands := rubberBands (stats s) + 1\<rparr>\<rparr>
                      else s)
        in if tick_overlapping r > 0 then
             let s2 = s1\<lparr>stuckTicks := stuckTicks s1 + 1\<rparr>
             in if stuckTicks s2 \<ge> stuckTicksThreshold (tick_pm r) \<and> \<not> recovering s2
                then triggerRecovery ''suffocation'' (tick_now r) (tick_pm r)
                       (s2\<lparr>stats := (stats s2)\<lparr>suffocations := suffocations (stats s2) + 1\<rparr>\<rparr>)
                else s2
           else
             (if stuckTicks s1 > 0
              then s1\<lparr>recoveryLevel := max 0 (recoveryLevel s1 - 1), stuckTicks := 0\<rparr>
              else s1\<lparr>stuckTicks := 0\<rparr>)
      else s)"

text \<open>
  The stall-monitor interval callback. \<open>moved\<close> is the distance to the last recorded move
  position (absent when none is recorded), \<open>pathfinderActive\<close> is \<^verbatim>\<open>isPathfinderActive()\<close>,
  \<open>blocking\<close> the length of \<^verbatim>\<open>getBlockingBlocks()\<close>, and \<open>returns\<close> the count computed by
  \<^verbatim>\<open>checkForLoop\<close> (absent while the history holds fewer than 15 samples).
\<close>

record StallReading =
  stall_hasEntity :: bool
  stall_moved :: "real option"
  stall_pathfinderActive :: bool
  stall_blocking :: nat
  stall_returns :: "nat option"
  stall_now :: int
  stall_pm :: PingMonitor

definition checkForLoop :: "StallReading \<Rightarrow> AntiStuck \<Rightarrow> AntiStuck" where
  "checkForLoop r s =
     (case stall_returns r of
        None \<Rightarrow> s
      | Some n \<Rightarrow>
          if n \<ge> 4
          then triggerRecovery ''loop'' (stall_now r) (stall_pm r)
                 (s\<lparr>stats := (stats s)\<lparr>loops := loops (stats s) + 1\<rparr>\<rparr>)
          else s)"

definition stallMonitor :: "StallReading \<Rightarrow> AntiStuck \<Rightarrow> AntiStuck" where
  "stallMonitor r s =
     (if active s \<and> stall_hasEntity r \<and> \<not> recovering s then
        let now = stall_now r;
            s1 = (case stall_moved r of
                    None \<Rightarrow> s
                  | Some moved \<Rightarrow>
                      if moved > 15 / 100
                      then s\<lparr>lastMoveTime := now, consecutiveStucks := 0,
                             blockClearAttempted := False\<rparr>
                      else if real_of_int (now - lastMoveTime s) > stallTimeThreshold (stall_pm r)
                      then
                        (if stall_pathfinderActive r \<and> \<not> recovering s
                         then
                           (if stall_blocking r > 0 \<and> \<not> blockClearAttempted s
                            then (clearBlockingPath_begin (stall_blocking r)
                                    (s\<lparr>blockClearAttempted := True\<rparr>))\<lparr>lastMoveTime := now\<rparr>
                            else (triggerRecovery ''stall'' now (stall_pm r)
                                    (s\<lparr>stats := (stats s)\<lparr>stalls := stalls (stats s) + 1\<rparr>,
                                       blockClearAttempted := False\<rparr>))\<lparr>lastMoveTime := now\<rparr>)
                         else s)
                      else s)
        in checkForLoop r s1
      else s)"

text \<open>Everything that can happen to the recovery subsystem, one event per callback.\<close>

datatype RecoveryEvent =
    Enable int
  | Disable
  | Reset int
  | PhysicsTick TickReading
  | StallInterval StallReading
  | LevelReturns bool
  | Recheck bool
  | RecoveryThrows
  | ClearBlockingPath nat
  | ClearBlockingPathDone

fun recovery_step :: "AntiStuck \<Rightarrow> RecoveryEvent \<Rightarrow> AntiStuck" where
  "recovery_step s (Enable now) = enable now s"
| "recovery_step s Disable = disable s"
| "recovery_step s (Reset now) = reset now s"
| "recovery_step s (PhysicsTick r) = tickListener r s"
| "recovery_step s (StallInterval r) = stallMonitor r s"
| "recovery_step s (LevelReturns hasEntity) = levelReturns hasEntity s"
| "recovery_step s (Recheck stillStuck) = recheck stillStuck s"
| "recovery_step s RecoveryThrows = recoveryThrows s"
| "recovery_step s (ClearBlockingPath blocking) = clearBlockingPath_begin blocking s"
| "recovery_step s ClearBlockingPathDone = clearBlockingPath_end s"

definition recovery_run :: "RecoveryEvent list \<Rightarrow> AntiStuck" where
  "recovery_run evs = foldl recovery_step antistuck_init evs"

text \<open>The bound the ladder is meant to keep.\<close>

definition level_ok :: "AntiStuck \<Rightarrow> bool" where
  "level_ok s = (0 \<le> recoveryLevel s \<and> recoveryLevel s \<le> 5)"

section \<open>Recovery ladder (safety/anti-stuck.ts): what gets dug\<close>

text \<open>
  The world as the bot sees it at one instant: \<^verbatim>\<open>bot.blockAt\<close> on block coordinates (absent
  for an unloaded position), \<^verbatim>\<open>bot.entity\<close> (absent while not spawned) and the goal of the
  pathfinder. A block is identified by the coordinates it was read at, so a block in the
  model is the pair of its position and its data. Positions of the entity are real-valued.
\<close>

datatype RVec3 = RVec3 (rx: real) (ry: real) (rz: real)

record Block =
  bname :: string
  boundingBox :: string

record Entity =
  position :: RVec3
  velocity :: RVec3
  yaw :: real
  onGround :: bool

record Goal =
  goal_x :: "real option"
  goal_z :: "real option"

record BotView =
  blockAt :: "Vec3 \<Rightarrow> Block option"
  entity :: "Entity option"
  pf_goal :: "Goal option"

text \<open>\<^verbatim>\<open>SKIP_BLOCKS\<close> and \<^verbatim>\<open>ToolSelector.shouldMine\<close> (inventory/tool-selector.ts).\<close>

definition SKIP_BLOCKS :: "string list" where
  "SKIP_BLOCKS =
     [''air'', ''cave_air'', ''void_air'',
      ''water'', ''lava'',
      ''flowing_water'', ''flowing_lava'',
      ''bedrock'',
      ''snow'',
      ''short_grass'', ''tall_grass'', ''fern'', ''large_fern'', ''dead_bush'',
      ''oak_leaves'', ''oak_log'',
      ''chest'', ''trapped_chest'', ''crafting_table'',
      ''white_bed'', ''red_bed'', ''blue_bed'', ''green_bed'', ''yellow_bed'',
      ''black_bed'', ''brown_bed'', ''cyan_bed'', ''gray_bed'', ''light_blue_bed'',
      ''light_gray_bed'', ''lime_bed'', ''magenta_bed'', ''orange_bed'', ''pink_bed'',
      ''purple_bed'', ''smithing_table'', ''furnace'']"

definition shouldMine :: "Block \<Rightarrow> bool" where
  "shouldMine b = (bname b \<notin> set SKIP_BLOCKS)"

definition floored :: "RVec3 \<Rightarrow> Vec3" where
  "floored p = Vec3 \<lfloor>rx p\<rfloor> \<lfloor>ry p\<rfloor> \<lfloor>rz p\<rfloor>"

definition offset :: "Vec3 \<Rightarrow> int \<Rightarrow> int \<Rightarrow> int \<Rightarrow> Vec3" where
  "offset v dx dy dz = Vec3 (vx v + dx) (vy v + dy) (vz v + dz)"

text \<open>
  \<^verbatim>\<open>getOverlappingBlocks\<close>: the solid, non-bedrock blocks whose unit cube meets the hitbox
  of the player (0.6 wide, 1.8 high), scanned with \<open>bx\<close> outermost and \<open>bz\<close> innermost.
\<close>

definition getOverlappingBlocks :: "BotView \<Rightarrow> (Vec3 \<times> Block) list" where
  "getOverlappingBlocks view =
     (case entity view of
        None \<Rightarrow> []
      | Some ent \<Rightarrow>
          let pos = position ent;
              minX = rx pos - 3 / 10; maxX = rx pos + 3 / 10;
              minY = ry pos; maxY = ry pos + 18 / 10;
              minZ = rz pos - 3 / 10; maxZ = rz pos + 3 / 10
          in concat (map (\<lambda>bx. concat (map (\<lambda>by. concat (map (\<lambda>bz.
               (case blockAt view (Vec3 bx by bz) of
                  None \<Rightarrow> []
                | Some b \<Rightarrow>
                    if boundingBox b \<noteq> ''block'' \<or> bname b = ''bedrock'' then []
                    else if minX < real_of_int (bx + 1) \<and> maxX > real_of_int bx
                          \<and> minY < real_of_int (by + 1) \<and> maxY > real_of_int by
                          \<and> minZ < real_of_int (bz + 1) \<and> maxZ > real_of_int bz
                    then [(Vec3 bx by bz, b)]
                    else []))
               [\<lfloor>minZ\<rfloor> .. \<lfloor>maxZ\<rfloor>])) [\<lfloor>minY\<rfloor> .. \<lfloor>maxY\<rfloor>])) [\<lfloor>minX\<rfloor> .. \<lfloor>maxX\<rfloor>]))"

text \<open>
  \<^verbatim>\<open>getMovementDirection\<close>: towards the pathfinder goal when it is more than half a block
  away horizontally, else along the velocity, else along the yaw. The result is the pair
  of the \<open>x\<close> and \<open>z\<close> components.
\<close>

definition getMovementDirection :: "BotView \<Rightarrow> (real \<times> real) option" where
  "getMovementDirection view =
     (case entity view of
        None \<Rightarrow> None
      | Some ent \<Rightarrow>
          let pos = position ent;
              fromGoal =
                (case pf_goal view of
                   None \<Rightarrow> None
                 | Some g \<Rightarrow>
                     let gx = (case goal_x g of Some v \<Rightarrow> v | None \<Rightarrow> rx pos);
                         gz = (case goal_z g of Some v \<Rightarrow> v | None \<Rightarrow> rz pos);
                         dx = gx - rx pos;
                         dz = gz - rz pos;
                         len = sqrt (dx * dx + dz * dz)
                     in if len > 5 / 10 then Some (dx / len, dz / len) else None)
          in case fromGoal of
               Some d \<Rightarrow> Some d
             | None \<Rightarrow>
                 let vel = velocity ent
                 in if \<bar>rx vel\<bar> > 1 / 100 \<or> \<bar>rz vel\<bar> > 1 / 100
                    then let len = sqrt (rx vel * rx vel + rz vel * rz vel)
                         in Some (rx vel / len, rz vel / len)
                    else Some (- sin (yaw ent), cos (yaw ent)))"

text \<open>
  \<^verbatim>\<open>getBlockingBlocks\<close>. The closure \<^verbatim>\<open>tryAdd\<close> works on the set \<^verbatim>\<open>checked\<close> of positions
  already looked at and on the result array \<^verbatim>\<open>blocks\<close>. \<open>blocking_candidates\<close> lists the
  positions the loop over foot and head height offers to it: the two cardinal neighbours
  in the step direction and the diagonal corner.
\<close>

definition tryAdd ::
  "BotView \<Rightarrow> Vec3 list \<times> (Vec3 \<times> Block) list \<Rightarrow> Vec3 \<Rightarrow> Vec3 list \<times> (Vec3 \<times> Block) list" where
  "tryAdd view st p =
     (if p \<in> set (fst st) then st
      else case blockAt view p of
             None \<Rightarrow> (fst st @ [p], snd st)
           | Some b \<Rightarrow>
               if boundingBox b = ''block'' \<and> shouldMine b
               then (fst st @ [p], snd st @ [(p, b)])
               else (fst st @ [p], snd st))"

definition blocking_candidates :: "int \<Rightarrow> int \<Rightarrow> int \<Rightarrow> int \<Rightarrow> int \<Rightarrow> Vec3 list" where
  "blocking_candidates sx sz botBlockX baseY botBlockZ =
     concat (map (\<lambda>dy.
        (if sx \<noteq> 0 then [Vec3 (botBlockX + sx) (baseY + dy) botBlockZ] else [])
        @ (if sz \<noteq> 0 then [Vec3 botBlockX (baseY + dy) (botBlockZ + sz)] else [])
        @ (if sx \<noteq> 0 \<and> sz \<noteq> 0
           then [Vec3 (botBlockX + sx) (baseY + dy) (botBlockZ + sz)] else []))
        [0, 1])"

definition getBlockingBlocks :: "BotView \<Rightarrow> (Vec3 \<times> Block) list" where
  "getBlockingBlocks view =
     (case entity view of
        None \<Rightarrow> []
      | Some ent \<Rightarrow>
          (case getMovementDirection view of
             None \<Rightarrow> []
           | Some dir \<Rightarrow>
               let pos = position ent;
                   baseY = \<lfloor>ry pos\<rfloor>;
                   sx = (if fst dir > 3 / 10 then 1 else if fst dir < - (3 / 10) then - 1 else 0);
                   sz = (if snd dir > 3 / 10 then 1 else if snd dir < - (3 / 10) then - 1 else 0)
               in if sx = 0 \<and> sz = 0 then []
                  else
                    let botBlockX = \<lfloor>rx pos\<rfloor>;
                        botBlockZ = \<lfloor>rz pos\<rfloor>
                    in snd (foldl (tryAdd view) ([], [])
                              (blocking_candidates sx sz botBlockX baseY botBlockZ))))"

text \<open>
  The routines below are asynchronous and the world changes while they are suspended. The
  course of the world is a timeline, one view per instant of a logical clock; every
  suspension advances the clock. The record \<open>Digging\<close> carries the clock and the blocks
  handed to \<^verbatim>\<open>bot.dig\<close> so far, in order. The control inputs the routines press and release
  have no influence on what is dug and are left out.
\<close>

type_synonym Timeline = "nat \<Rightarrow> BotView"

record Digging =
  clock :: nat
  dug :: "(Vec3 \<times> Block) list"

definition fresh :: "nat \<Rightarrow> Digging" where
  "fresh t = \<lparr>clock = t, dug = []\<rparr>"

text \<open>
  \<^verbatim>\<open>safeDig\<close> equips a tool and starts \<^verbatim>\<open>bot.dig(block)\<close> under a timeout; whatever the
  outcome, the block was dug at. \<^verbatim>\<open>waitTicks\<close> and \<^verbatim>\<open>sleep\<close> only let time pass.
\<close>

definition safeDig :: "Digging \<Rightarrow> Vec3 \<times> Block \<Rightarrow> Digging" where
  "safeDig d b = d\<lparr>dug := dug d @ [b], clock := clock d + 1\<rparr>"

definition suspend :: "Digging \<Rightarrow> Digging" where
  "suspend d = d\<lparr>clock := clock d + 1\<rparr>"

definition now_view :: "Timeline \<Rightarrow> Digging \<Rightarrow> BotView" where
  "now_view tline d = tline (clock d)"

definition clearOverlapping :: "Timeline \<Rightarrow> Digging \<Rightarrow> Digging" where
  "clearOverlapping tline d =
     foldl (\<lambda>d b. if \<not> shouldMine (snd b) then d else suspend (safeDig d b))
       d (getOverlappingBlocks (now_view tline d))"

definition clearBlockingPath :: "bool \<Rightarrow> Timeline \<Rightarrow> Digging \<Rightarrow> Digging" where
  "clearBlockingPath isRecovering tline d =
     (if isRecovering then d
      else let blocking = getBlockingBlocks (now_view tline d)
           in if length blocking = 0 then d
              else foldl (\<lambda>d b. suspend (safeDig d b)) d blocking)"

definition recoverLevel0_jump :: "Timeline \<Rightarrow> Digging \<Rightarrow> Digging" where
  "recoverLevel0_jump tline d =
     suspend (foldl safeDig d (getBlockingBlocks (now_view tline d)))"

definition recoverLevel1_jumpAndMove :: "Timeline \<Rightarrow> Digging \<Rightarrow> Digging" where
  "recoverLevel1_jumpAndMove tline d =
     (case entity (now_view tline d) of
        None \<Rightarrow> d
      | Some ent \<Rightarrow>
          let d1 = foldl (\<lambda>d b. suspend (safeDig d b)) d (getBlockingBlocks (now_view tline d));
              d2 = foldl (\<lambda>d b. if \<not> shouldMine (snd b) then d else safeDig d b)
                     d1 (getOverlappingBlocks (now_view tline d1));
              d3 = suspend d2
          in if length (getOverlappingBlocks (now_view tline d3)) > 0
             then suspend (suspend d3)
             else d3)"

definition recoverLevel2_digOverlapping :: "Timeline \<Rightarrow> Digging \<Rightarrow> Digging" where
  "recoverLevel2_digOverlapping tline d =
     (let d1 = suspend d
      in foldl (\<lambda>d b. if \<not> shouldMine (snd b) then d else safeDig d b)
           d1 (getOverlappingBlocks (now_view tline d1)))"

text \<open>
  The loops of levels 3, 4 and 5 read each block when they reach it, so after the digs
  that came before. Their offsets are listed in the order of the loops: \<open>dy\<close> outermost,
  then \<open>dx\<close>, then \<open>dz\<close>.
\<close>

definition digIfMinable :: "Timeline \<Rightarrow> Vec3 \<Rightarrow> Digging \<Rightarrow> int \<times> int \<times> int \<Rightarrow> Digging" where
  "digIfMinable tline center d off =
     (case off of (dx, dy, dz) \<Rightarrow>
        let pos = offset center dx dy dz
        in case blockAt (now_view tline d) pos of
             None \<Rightarrow> d
           | Some block \<Rightarrow>
               if boundingBox block = ''block'' \<and> shouldMine block
               then safeDig d (pos, block)
               else d)"

definition recoverLevel3_clearSpace :: "Timeline \<Rightarrow> Digging \<Rightarrow> Digging" where
  "recoverLevel3_clearSpace tline d =
     (case entity (now_view tline d) of
        None \<Rightarrow> d
      | Some ent \<Rightarrow>
          let center = floored (position ent)
          in suspend (foldl (digIfMinable tline center) d
               (concat (map (\<lambda>dy. concat (map (\<lambda>dx. map (\<lambda>dz. (dx, dy, dz)) [-1 .. 1]) [-1 .. 1]))
                  [0 .. 1]))))"

definition forceClearArea :: "Timeline \<Rightarrow> Digging \<Rightarrow> Digging" where
  "forceClearArea tline d = recoverLevel3_clearSpace tline d"

definition recoverLevel4_digUp :: "Timeline \<Rightarrow> Digging \<Rightarrow> Digging" where
  "recoverLevel4_digUp tline d =
     (case entity (now_view tline d) of
        None \<Rightarrow> d
      | Some ent \<Rightarrow>
          let pos = floored (position ent);
              d1 = recoverLevel3_clearSpace tline d
          in suspend (foldl (digIfMinable tline pos) d1 (map (\<lambda>dy. (0, dy, 0)) [2 .. 4])))"

definition digUnlessBedrock :: "Timeline \<Rightarrow> Vec3 \<Rightarrow> Digging \<Rightarrow> int \<times> int \<times> int \<Rightarrow> Digging" where
  "digUnlessBedrock tline pos d off =
     (case off of (dx, dy, dz) \<Rightarrow>
        if dx = 0 \<and> dz = 0 \<and> dy = - 1 then d
        else
          let blockPos = offset pos dx dy dz
          in case blockAt (now_view tline d) blockPos of
               None \<Rightarrow> d
             | Some block \<Rightarrow>
                 if boundingBox block = ''block'' \<and> bname block \<noteq> ''bedrock''
                 then safeDig d (blockPos, block)
                 else d)"

definition recoverLevel5_emergency :: "Timeline \<Rightarrow> Digging \<Rightarrow> Digging" where
  "recoverLevel5_emergency tline d =
     (case entity (now_view tline d) of
        None \<Rightarrow> d
      | Some ent \<Rightarrow>
          let pos = floored (position ent)
          in suspend (foldl (digUnlessBedrock tline pos) d
               (concat (map (\<lambda>dy. concat (map (\<lambda>dx. map (\<lambda>dz. (dx, dy, dz)) [-1 .. 1]) [-1 .. 1]))
                  [-1 .. 3]))))"

text \<open>The \<^verbatim>\<open>switch\<close> of \<^verbatim>\<open>triggerRecovery\<close> on the recovery level.\<close>

definition recovery_action :: "int \<Rightarrow> Timeline \<Rightarrow> Digging \<Rightarrow> Digging" where
  "recovery_action level tline d =
     (if level = 0 then recoverLevel0_jump tline d
      else if level = 1 then recoverLevel1_jumpAndMove tline d
      else if level = 2 then recoverLevel2_digOverlapping tline d
      else if level = 3 then recoverLevel3_clearSpace tline d
      else if level = 4 then recoverLevel4_digUp tline d
      else recoverLevel5_emergency tline d)"

definition not_bedrock :: "Vec3 \<times> Block \<Rightarrow> bool" where
  "not_bedrock b = (bname (snd b) \<noteq> ''bedrock'')"

definition not_at :: "Vec3 \<Rightarrow> Vec3 \<times> Block \<Rightarrow> bool" where
  "not_at p b = (fst b \<noteq> p)"

text \<open>Every block handed to \<^verbatim>\<open>bot.dig\<close> satisfies the given property.\<close>

definition dug_all :: "(Vec3 \<times> Block \<Rightarrow> bool) \<Rightarrow> Digging \<Rightarrow> bool" where
  "dug_all P d = list_all P (dug d)"

text \<open>
  A small world for checking the routines on: a floor of bedrock at height 63, one stone
  block beside the bot at foot height, air elsewhere; the bot stands still at
  (0.5, 64, 0.5).
\<close>

definition example_view :: BotView where
  "example_view =
     \<lparr>blockAt = (\<lambda>p. if vy p = 63 then Some \<lparr>bname = ''bedrock'', boundingBox = ''block''\<rparr>
                      else if p = Vec3 1 64 0 then Some \<lparr>bname = ''stone'', boundingBox = ''block''\<rparr>
                      else None),
      entity = Some \<lparr>position = RVec3 (1 / 2) 64 (1 / 2), velocity = RVec3 0 0 0, yaw = 0,
                      onGround = True\<rparr>,
      pf_goal = None\<rparr>"

section \<open>Navigator (mining/navigator.ts)\<close>

text \<open>
  One call of \<^verbatim>\<open>gotoWithTimeout\<close> is a promise with three callbacks racing: the interval of
  the stuck checker, the timeout timer and the settlement of \<^verbatim>\<open>pathfinder.goto\<close>. The record
  holds the local variables of the closure (\<open>isDone\<close>, \<open>stuckMs\<close>, whether the interval and
  the timer are registered, how many 250 ms jump releases are pending), the outcome of the
  promise, and what the call acts on: the set of control inputs of the bot that are on,
  whether the promise of \<^verbatim>\<open>pathfinder.goto\<close> is outstanding, and how often
  \<^verbatim>\<open>bot.clearControlStates\<close>, \<^verbatim>\<open>pathfinder.stop\<close> and \<^verbatim>\<open>antiStuck.clearBlockingPath\<close> have been
  called.
\<close>

datatype Rejection = JsError string | JsTypeError

record GotoRun =
  timeoutMs :: int
  isDone :: bool
  stuckChecker :: bool
  timer :: bool
  stuckMs :: int
  jumpReleases :: nat
  controls :: "string set"
  controlClears :: nat
  gotoPending :: bool
  pathfinderStops :: nat
  settled :: "(Rejection + unit) option"
  pathClearRequests :: nat





text \<open>
  The closure \<^verbatim>\<open>finish\<close>: first call wins; it unregisters both callbacks, calls
  \<^verbatim>\<open>bot.clearControlStates()\<close> and settles the promise (settling a promise that is already
  settled changes nothing).
\<close>

definition finish :: "Rejection option \<Rightarrow> GotoRun \<Rightarrow> GotoRun" where
  "finish err s =
     (if isDone s then s
      else s\<lparr>isDone := True, stuckChecker := False, timer := False, controls := {},
             controlClears := controlClears s + 1,
             settled := (case settled s of
                           Some r \<Rightarrow> Some r
                         | None \<Rightarrow> Some (case err of None \<Rightarrow> Inr () | Some m \<Rightarrow> Inl m))\<rparr>)"

text \<open>
  The stuck checker, every \<open>stuckCheckInterval\<close> ms. \<open>moved\<close> is the distance to \<open>lastPos\<close>,
  \<open>canClear\<close> says that an anti-stuck subsystem is attached and not recovering.
\<close>

definition stuckCheck :: "PingMonitor \<Rightarrow> bool \<Rightarrow> real \<Rightarrow> bool \<Rightarrow> GotoRun \<Rightarrow> GotoRun" where
  "stuckCheck pm hasEntity moved canClear s =
     (if \<not> stuckChecker s then s
      else if isDone s \<or> \<not> hasEntity then s
      else if moved < 2 / 10 then
        let s1 = s\<lparr>stuckMs := stuckMs s + stuckCheckInterval pm\<rparr>
        in if stuckMs s1 \<ge> 2000
           then (if canClear then s1\<lparr>pathClearRequests := pathClearRequests s1 + 1\<rparr> else s1)
                  \<lparr>controls := insert ''jump'' (controls s1),
                   jumpReleases := jumpReleases s1 + 1,
                   stuckMs := 0\<rparr>
           else s1
      else s\<lparr>stuckMs := 0\<rparr>)"

text \<open>The 250 ms callback that lets go of the jump, unless the call is over.\<close>

definition jumpRelease :: "GotoRun \<Rightarrow> GotoRun" where
  "jumpRelease s =
     (if jumpReleases s = 0 then s
      else let s1 = s\<lparr>jumpReleases := jumpReleases s - 1\<rparr>
           in if \<not> isDone s1 then s1\<lparr>controls := controls s1 - {''jump''}\<rparr> else s1)"

text \<open>The timeout: \<^verbatim>\<open>pathfinder.stop()\<close>, then \<^verbatim>\<open>finish(new Error('Path timeout'))\<close>.\<close>

definition timerFires :: "GotoRun \<Rightarrow> GotoRun" where
  "timerFires s =
     (if \<not> timer s then s
      else finish (Some (JsError ''Path timeout''))
             (s\<lparr>timer := False, pathfinderStops := pathfinderStops s + 1\<rparr>))"

text \<open>
  The promise of \<^verbatim>\<open>pathfinder.goto\<close> settles; its handlers call \<^verbatim>\<open>finish\<close> and nothing else.
\<close>

definition gotoResolved :: "GotoRun \<Rightarrow> GotoRun" where
  "gotoResolved s =
     (if \<not> gotoPending s then s
      else finish None (s\<lparr>gotoPending := False\<rparr>))"

definition gotoRejected :: "string \<Rightarrow> GotoRun \<Rightarrow> GotoRun" where
  "gotoRejected msg s =
     (if \<not> gotoPending s then s
      else finish (Some (JsError msg)) (s\<lparr>gotoPending := False\<rparr>))"

text \<open>
  \<^verbatim>\<open>bot.setControlState\<close> called from outside the wrapper, by the pathfinder or by any other
  component, at any time.
\<close>

definition setControlState :: "string \<Rightarrow> bool \<Rightarrow> GotoRun \<Rightarrow> GotoRun" where
  "setControlState c on s =
     s\<lparr>controls := (if on then insert c (controls s) else controls s - {c})\<rparr>"

datatype GotoEvent =
    StuckCheck PingMonitor bool real bool
  | JumpRelease
  | TimerFires
  | GotoResolved
  | GotoRejected string
  | SetControlState string bool

fun goto_step :: "GotoRun \<Rightarrow> GotoEvent \<Rightarrow> GotoRun" where
  "goto_step s (StuckCheck pm hasEntity moved canClear) = stuckCheck pm hasEntity moved canClear s"
| "goto_step s JumpRelease = jumpRelease s"
| "goto_step s TimerFires = timerFires s"
| "goto_step s GotoResolved = gotoResolved s"
| "goto_step s (GotoRejected msg) = gotoRejected msg s"
| "goto_step s (SetControlState c on) = setControlState c on s"

text \<open>\<^verbatim>\<open>Navigator.stop\<close>: stop the pathfinder, swallowing its errors, and clear the controls.\<close>

definition navigator_stop :: "GotoRun \<Rightarrow> GotoRun" where
  "navigator_stop s =
     s\<lparr>pathfinderStops := pathfinderStops s + 1, controls := {},
       controlClears := controlClears s + 1\<rparr>"



section \<open>Confirmation waiter (network/position-confirmer.ts)\<close>

text \<open>
  \<^verbatim>\<open>waitForBlockBreak\<close> waits one tick, reads the block at the position and returns true
  when it is missing or one of the three kinds of air, for at most \<open>maxTicks\<close> ticks.
  \<open>seen k\<close> is the block read after tick \<open>k\<close>.
\<close>

definition block_gone :: "Block option \<Rightarrow> bool" where
  "block_gone b =
     (case b of
        None \<Rightarrow> True
      | Some block \<Rightarrow>
          bname block = ''air'' \<or> bname block = ''cave_air'' \<or> bname block = ''void_air'')"

function waitForBlockBreak_loop :: "(nat \<Rightarrow> Block option) \<Rightarrow> nat \<Rightarrow> nat \<Rightarrow> bool" where
  "waitForBlockBreak_loop seen i maxTicks =
     (if i < maxTicks
      then (if block_gone (seen i) then True else waitForBlockBreak_loop seen (i + 1) maxTicks)
      else False)"
  by pat_completeness auto
termination
  by (relation "measure (\<lambda>(seen, i, maxTicks). maxTicks - i)") auto

declare waitForBlockBreak_loop.simps [simp del]

definition waitForBlockBreak :: "(nat \<Rightarrow> Block option) \<Rightarrow> nat \<Rightarrow> bool" where
  "waitForBlockBreak seen maxTicks = waitForBlockBreak_loop seen 0 maxTicks"

definition getAdaptiveWaitTicks :: "PingMonitor \<Rightarrow> nat" where
  "getAdaptiveWaitTicks pm =
     (let ping = currentPing pm
      in if ping > 400 then 6
         else if ping > 200 then 4
         else if ping > 100 then 3
         else 2)"

definition waitAfterDig :: "PingMonitor \<Rightarrow> (nat \<Rightarrow> Block option) \<Rightarrow> bool" where
  "waitAfterDig pm seen = (let ticks = getAdaptiveWaitTicks pm in waitForBlockBreak seen ticks)"

section \<open>Mining engine (mining/mining-engine.ts) and state file (mining/state-manager.ts)\<close>

datatype MiningStatus = Idle | Mining | Paused | Finished | Error | Traveling

record SavedMiningState =
  saved_area :: NormalizedArea
  saved_minedBlocks :: nat

text \<open>
  The engine: the fields of \<^verbatim>\<open>MiningState\<close> it writes, the content of the state file (absent
  when the file does not exist), the events emitted so far and whether it has the recovery
  subsystem enabled. Counters and indices are natural numbers.
\<close>

record MiningEngine =
  status :: MiningStatus
  engine_area :: "NormalizedArea option"
  totalBlocks :: nat
  minedBlocks :: nat
  currentTool :: "string option"
  error_message :: "string option"
  stateFile :: "SavedMiningState option"
  emitted :: "BusEvent list"
  antiStuckEnabled :: bool


record AppConfig =
  healToThreshold :: real
  foodThreshold :: real

definition REACH_DISTANCE :: real where
  "REACH_DISTANCE = 45 / 10"

text \<open>\<^verbatim>\<open>StateManager.save\<close> and \<^verbatim>\<open>StateManager.clear\<close>, as the engine sees the file.\<close>

definition save :: "NormalizedArea \<Rightarrow> nat \<Rightarrow> MiningEngine \<Rightarrow> MiningEngine" where
  "save a n s = s\<lparr>stateFile := Some \<lparr>saved_area = a, saved_minedBlocks = n\<rparr>\<rparr>"

definition clear :: "MiningEngine \<Rightarrow> MiningEngine" where
  "clear s = s\<lparr>stateFile := None\<rparr>"

definition emit :: "BusEvent \<Rightarrow> MiningEngine \<Rightarrow> MiningEngine" where
  "emit ev s = s\<lparr>emitted := emitted s @ [ev]\<rparr>"

text \<open>
  \<^verbatim>\<open>pause\<close>, \<^verbatim>\<open>resume\<close> and \<^verbatim>\<open>stop\<close> are synchronous and are called from outside (the control
  API) whenever the engine is suspended. \<^verbatim>\<open>pause\<close> saves \<^verbatim>\<open>this.state.area!\<close>; with no area
  set the save fails after the status has been written.
\<close>

definition pause :: "MiningEngine \<Rightarrow> MiningEngine" where
  "pause s =
     (if status s = Mining
      then (case engine_area s of
              Some a \<Rightarrow> emit (MiningPaused ''user'') (save a (minedBlocks s) (s\<lparr>status := Paused\<rparr>))
            | None \<Rightarrow> s\<lparr>status := Paused\<rparr>)
      else s)"

definition resume :: "MiningEngine \<Rightarrow> MiningEngine" where
  "resume s =
     (if status s = Paused then emit MiningResumed (s\<lparr>status := Mining\<rparr>) else s)"

definition stop :: "MiningEngine \<Rightarrow> MiningEngine" where
  "stop s = clear (s\<lparr>status := Idle, error_message := None, antiStuckEnabled := False\<rparr>)"

datatype Command = CmdPause | CmdResume | CmdStop

fun run_command :: "MiningEngine \<Rightarrow> Command \<Rightarrow> MiningEngine" where
  "run_command s CmdPause = pause s"
| "run_command s CmdResume = resume s"
| "run_command s CmdStop = stop s"

text \<open>
  An \<^verbatim>\<open>await\<close>: the engine is suspended and the commands that arrive meanwhile run in order.
  The commands considered are these three; a second \<^verbatim>\<open>start\<close> or a \<^verbatim>\<open>goToBase\<close> while a run
  is under way is not.
\<close>

definition await :: "Command list \<Rightarrow> MiningEngine \<Rightarrow> MiningEngine" where
  "await cmds s = foldl run_command s cmds"

text \<open>
  What one pass of the \<^verbatim>\<open>while\<close> loop of \<^verbatim>\<open>mineBlock\<close> gets from its collaborators, in the
  order it asks: for every \<^verbatim>\<open>await\<close> the commands that arrive during it, and the values the
  calls return. Calls outside a \<^verbatim>\<open>try\<close> block are taken to return normally.
\<close>

datatype DigOutcome = DigResolved | DigRejected | DigTimedOut

record AttemptEnv =
  a_clearOverlapping :: "Command list"
  a_block :: "Block option"
  a_inventoryFull :: bool
  a_deposit :: "Command list"
  a_freed :: bool
  a_inventoryWait :: "(Command list \<times> bool) list"
  a_distance :: real
  a_canSee :: bool
  a_goNear :: "Command list"
  a_targetBlock :: "Block option"
  a_equip :: "Command list"
  a_tool :: string
  a_lookAt :: "Command list"
  a_lookAtThrows :: bool
  a_distAfter :: real
  a_canSeeAfter :: bool
  a_dig :: "Command list"
  a_digOutcome :: DigOutcome
  a_confirm :: "Command list"
  a_confirmPm :: PingMonitor
  a_confirmSeen :: "nat \<Rightarrow> Block option"
  a_retrySleep :: "Command list"

text \<open>
  The places where \<^verbatim>\<open>mineBlock\<close> returns: the run was stopped; there is nothing (left) to
  mine at the position; the wait for inventory space ended in a status other than mining;
  the success return after a dig; the end of the loop after three failed attempts.
\<close>

datatype MineExit = Stopped | NothingToMine | InventoryBlocked | Success | GaveUp

text \<open>
  The result of one pass: it returned, it failed and the loop goes round again, or it is
  still waiting when the recorded history ends.
\<close>

datatype AttemptResult =
    Exit MineExit MiningEngine
  | Retry MiningEngine
  | StillWaiting

text \<open>
  The inner loop that waits for inventory space: one entry per \<^verbatim>\<open>sleep(1000)\<close>, with the
  commands that arrive during it and the value of \<^verbatim>\<open>isFull()\<close> after it.
\<close>

fun inventoryWait :: "(Command list \<times> bool) list \<Rightarrow> MiningEngine \<Rightarrow> MiningEngine option" where
  "inventoryWait [] s = (if status s = Paused then None else Some s)"
| "inventoryWait ((cmds, full) # rest) s =
     (if status s = Paused
      then (let s1 = await cmds s
            in if \<not> full then Some (s1\<lparr>status := Mining, error_message := None\<rparr>)
               else inventoryWait rest s1)
      else Some s)"

text \<open>The \<^verbatim>\<open>try\<close> block of the pass and its \<^verbatim>\<open>catch\<close>.\<close>

definition attempt_failed :: "AttemptEnv \<Rightarrow> MiningEngine \<Rightarrow> AttemptResult" where
  "attempt_failed e s = Retry (await (a_retrySleep e) s)"

definition attempt_dig ::
  "Vec3 \<Rightarrow> NormalizedArea \<Rightarrow> AttemptEnv \<Rightarrow> Block \<Rightarrow> MiningEngine \<Rightarrow> AttemptResult" where
  "attempt_dig pos a e targetBlock s =
     (let s1 = await (a_lookAt e) s
      in if a_lookAtThrows e then attempt_failed e s1
         else if a_distAfter e > REACH_DISTANCE \<or> \<not> a_canSeeAfter e then attempt_failed e s1
         else
           let s2 = await (a_dig e) s1
           in case a_digOutcome e of
                DigRejected \<Rightarrow> attempt_failed e s2
              | DigTimedOut \<Rightarrow> attempt_failed e s2
              | DigResolved \<Rightarrow>
                  let s3 = await (a_confirm e) s2;
                      confirmed = waitAfterDig (a_confirmPm e) (a_confirmSeen e);
                      s4 = save a (minedBlocks s3) s3;
                      s5 = emit (MiningBlockMined pos (bname targetBlock)) s4
                  in Exit Success s5)"

text \<open>The part of the pass from the second look at the block on.\<close>

definition attempt_target ::
  "Vec3 \<Rightarrow> NormalizedArea \<Rightarrow> AttemptEnv \<Rightarrow> MiningEngine \<Rightarrow> AttemptResult" where
  "attempt_target pos a e s =
     (let s1 = (if a_distance e > REACH_DISTANCE \<or> \<not> a_canSee e then await (a_goNear e) s else s)
      in case a_targetBlock e of
           None \<Rightarrow> Exit NothingToMine s1
         | Some targetBlock \<Rightarrow>
             if \<not> shouldMine targetBlock then Exit NothingToMine s1
             else
               let s2 = (await (a_equip e) s1)\<lparr>currentTool := Some (a_tool e)\<rparr>
               in attempt_dig pos a e targetBlock s2)"

definition attempt :: "Vec3 \<Rightarrow> NormalizedArea \<Rightarrow> AttemptEnv \<Rightarrow> MiningEngine \<Rightarrow> AttemptResult" where
  "attempt pos a e s =
     (if status s = Idle then Exit Stopped s
      else
        let s1 = await (a_clearOverlapping e) s
        in case a_block e of
             None \<Rightarrow> Exit NothingToMine s1
           | Some block \<Rightarrow>
               if \<not> shouldMine block then Exit NothingToMine s1
               else if a_inventoryFull e then
                 let s2 = emit InventoryFull (s1\<lparr>error_message := Some ''Depositing items...''\<rparr>);
                     s3 = (await (a_deposit e) s2)\<lparr>error_message := None\<rparr>
                 in if \<not> a_freed e then
                      let s4 = save a (minedBlocks s3)
                                 (s3\<lparr>status := Paused,
                                    error_message := Some ''Inventory full, no chest found''\<rparr>)
                      in case inventoryWait (a_inventoryWait e) s4 of
                           None \<Rightarrow> StillWaiting
                         | Some s5 \<Rightarrow>
                             if status s5 \<noteq> Mining then Exit InventoryBlocked s5
                             else attempt_target pos a e s5
                    else attempt_target pos a e s3
               else attempt_target pos a e s1)"

text \<open>
  \<^verbatim>\<open>mineBlock\<close>: the loop \<^verbatim>\<open>while (attempts < maxAttempts)\<close> with \<open>maxAttempts = 3\<close>, one
  \<open>AttemptEnv\<close> per pass. The result is absent when the recorded history ends before the
  call returns.
\<close>

fun mineBlock_loop ::
  "nat \<Rightarrow> Vec3 \<Rightarrow> NormalizedArea \<Rightarrow> AttemptEnv list \<Rightarrow> MiningEngine \<Rightarrow> (MineExit \<times> MiningEngine) option"
where
  "mineBlock_loop attempts pos a [] s = (if attempts < 3 then None else Some (GaveUp, s))"
| "mineBlock_loop attempts pos a (e # es) s =
     (if attempts < 3
      then (case attempt pos a e s of
              Exit x s' \<Rightarrow> Some (x, s')
            | Retry s' \<Rightarrow> mineBlock_loop (attempts + 1) pos a es s'
            | StillWaiting \<Rightarrow> None)
      else Some (GaveUp, s))"

definition mineBlock ::
  "Vec3 \<Rightarrow> NormalizedArea \<Rightarrow> AttemptEnv list \<Rightarrow> MiningEngine \<Rightarrow> (MineExit \<times> MiningEngine) option"
where
  "mineBlock pos a envs s = mineBlock_loop 0 pos a envs s"

text \<open>
  What one iteration of the \<^verbatim>\<open>for\<close> loop of \<^verbatim>\<open>mineArea\<close> gets from outside, in the order it
  asks.
\<close>

record IterEnv =
  i_saveSleep :: "Command list"
  i_pm :: PingMonitor
  i_autoPauseWait :: "(Command list \<times> PingMonitor) list"
  i_health :: real
  i_healWait :: "(Command list \<times> Command list \<times> real) list"
  i_pauseWait :: "Command list list"
  i_eat :: "Command list"
  i_attempts :: "AttemptEnv list"
  i_delayPm :: PingMonitor
  i_delaySleep :: "Command list"

text \<open>A piece of the loop body either goes on or executes \<^verbatim>\<open>return\<close>.\<close>

datatype Flow = Go MiningEngine | Ret MiningEngine

text \<open>
  Auto-pause on a bad connection. Entering sets the status, the message and emits the
  pause event; the wait sleeps 2 s at a time while the trigger holds and the status is
  still paused (one entry per sleep: the commands during it and the telemetry after it);
  leaving restores the status if nobody changed it.
\<close>

definition autoPause_enter :: "MiningEngine \<Rightarrow> MiningEngine" where
  "autoPause_enter s =
     emit (MiningPaused ''high_ping'')
       (s\<lparr>status := Paused, error_message := Some ''Auto-paused: bad connection''\<rparr>)"

fun autoPause_wait ::
  "PingMonitor \<Rightarrow> (Command list \<times> PingMonitor) list \<Rightarrow> MiningEngine \<Rightarrow> MiningEngine option" where
  "autoPause_wait pm [] s =
     (if shouldAutoPause pm \<and> status s = Paused then None else Some s)"
| "autoPause_wait pm ((cmds, pm') # rest) s =
     (if shouldAutoPause pm \<and> status s = Paused
      then autoPause_wait pm' rest (await cmds s)
      else Some s)"

definition autoPause_leave :: "MiningEngine \<Rightarrow> MiningEngine" where
  "autoPause_leave s =
     (if status s = Paused then s\<lparr>status := Mining, error_message := None\<rparr> else s)"

definition autoPause ::
  "PingMonitor \<Rightarrow> (Command list \<times> PingMonitor) list \<Rightarrow> MiningEngine \<Rightarrow> MiningEngine option" where
  "autoPause pm waits s =
     (if shouldAutoPause pm \<and> status s = Mining
      then map_option autoPause_leave (autoPause_wait pm waits (autoPause_enter s))
      else Some s)"

text \<open>
  The health check: below 14 the engine pauses and eats until the health reaches the
  configured threshold (one entry per round: commands during the meal, commands during
  the sleep, health after it), returning if it is stopped meanwhile.
\<close>

fun heal_wait ::
  "real \<Rightarrow> real \<Rightarrow> (Command list \<times> Command list \<times> real) list \<Rightarrow> MiningEngine \<Rightarrow> Flow option" where
  "heal_wait healTo health [] s = (if health < healTo then None else Some (Go s))"
| "heal_wait healTo health ((eat, slp, health') # rest) s =
     (if health < healTo
      then (let s1 = await slp (await eat s)
            in if status s1 = Idle then Some (Ret s1) else heal_wait healTo health' rest s1)
      else Some (Go s))"

definition healthCheck :: "AppConfig \<Rightarrow> IterEnv \<Rightarrow> MiningEngine \<Rightarrow> Flow option" where
  "healthCheck cfg e s =
     (if i_health e < 14 then
        let oldStatus = status s;
            s1 = s\<lparr>status := Paused, error_message := Some ''Healing...''\<rparr>
        in case heal_wait (healToThreshold cfg) (i_health e) (i_healWait e) s1 of
             None \<Rightarrow> None
           | Some (Ret s2) \<Rightarrow> Some (Ret s2)
           | Some (Go s2) \<Rightarrow>
               Some (Go (s2\<lparr>status := (if oldStatus = Paused then Paused else Mining),
                            error_message := None\<rparr>))
      else Some (Go s))"

text \<open>Honouring a manual pause: sleep 500 ms at a time until resumed or stopped.\<close>

fun pause_wait :: "Command list list \<Rightarrow> MiningEngine \<Rightarrow> Flow option" where
  "pause_wait [] s = (if status s = Paused then None else Some (Go s))"
| "pause_wait (cmds # rest) s =
     (if status s = Paused
      then (let s1 = await cmds s
            in if status s1 = Idle then Some (Ret s1) else pause_wait rest s1)
      else Some (Go s))"

text \<open>
  The body of the \<^verbatim>\<open>for\<close> loop of \<^verbatim>\<open>mineArea\<close> at index \<open>i\<close>, in three parts: everything
  before the call of \<^verbatim>\<open>mineBlock\<close>, the call, and the bookkeeping after it.
\<close>

definition mineArea_before ::
  "AppConfig \<Rightarrow> NormalizedArea \<Rightarrow> nat \<Rightarrow> IterEnv \<Rightarrow> MiningEngine \<Rightarrow> Flow option" where
  "mineArea_before cfg a i e s =
     (if status s = Idle then Some (Ret s)
      else
        let s1 = (if i mod 50 = 0 then await (i_saveSleep e) (save a (minedBlocks s) s) else s)
        in case autoPause (i_pm e) (i_autoPauseWait e) s1 of
             None \<Rightarrow> None
           | Some s2 \<Rightarrow>
               (case healthCheck cfg e s2 of
                  None \<Rightarrow> None
                | Some (Ret s3) \<Rightarrow> Some (Ret s3)
                | Some (Go s3) \<Rightarrow>
                    (case pause_wait (i_pauseWait e) s3 of
                       None \<Rightarrow> None
                     | Some (Ret s4) \<Rightarrow> Some (Ret s4)
                     | Some (Go s4) \<Rightarrow> Some (Go (await (i_eat e) s4)))))"

definition mineArea_after :: "nat \<Rightarrow> IterEnv \<Rightarrow> MiningEngine \<Rightarrow> MiningEngine" where
  "mineArea_after i e s =
     (let s1 = s\<lparr>minedBlocks := i + 1\<rparr>;
          s2 = emit (MiningProgress (int (minedBlocks s1)) (int (totalBlocks s1))) s1;
          delay = interBlockDelay (i_delayPm e)
      in if delay > 0 then await (i_delaySleep e) s2 else s2)"

definition mineArea_body ::
  "AppConfig \<Rightarrow> Vec3 list \<Rightarrow> NormalizedArea \<Rightarrow> nat \<Rightarrow> IterEnv \<Rightarrow> MiningEngine \<Rightarrow> Flow option" where
  "mineArea_body cfg positions a i e s =
     (case mineArea_before cfg a i e s of
        None \<Rightarrow> None
      | Some (Ret s1) \<Rightarrow> Some (Ret s1)
      | Some (Go s1) \<Rightarrow>
          (case mineBlock (positions ! i) a (i_attempts e) s1 of
             None \<Rightarrow> None
           | Some (x, s2) \<Rightarrow> Some (Go (mineArea_after i e s2))))"

text \<open>
  The \<^verbatim>\<open>for\<close> loop from \<open>i\<close> to the end of \<open>positions\<close>, one \<open>IterEnv\<close> per iteration
  (\<open>positions ! i\<close> is only read for \<open>i\<close> below the length).
\<close>

fun mineArea_loop ::
  "AppConfig \<Rightarrow> Vec3 list \<Rightarrow> NormalizedArea \<Rightarrow> nat \<Rightarrow> IterEnv list \<Rightarrow> MiningEngine
   \<Rightarrow> MiningEngine option" where
  "mineArea_loop cfg positions a i [] s = (if i < length positions then None else Some s)"
| "mineArea_loop cfg positions a i (e # es) s =
     (if i < length positions
      then (case mineArea_body cfg positions a i e s of
              None \<Rightarrow> None
            | Some (Ret s') \<Rightarrow> Some s'
            | Some (Go s') \<Rightarrow> mineArea_loop cfg positions a (i + 1) es s')
      else Some s)"








text \<open>
  What every pass of the loop of \<^verbatim>\<open>mineBlock\<close> guarantees about the state it leaves: the
  mined counter is untouched, and a success return has just written the area and that
  counter to the state file.
\<close>

definition attempt_post :: "NormalizedArea \<Rightarrow> MiningEngine \<Rightarrow> AttemptResult \<Rightarrow> bool" where
  "attempt_post a s r =
     (case r of
        StillWaiting \<Rightarrow> True
      | Retry s' \<Rightarrow> minedBlocks s' = minedBlocks s
      | Exit x s' \<Rightarrow> minedBlocks s' = minedBlocks s
          \<and> (if x = Success
              then stateFile s' = Some \<lparr>saved_area = a, saved_minedBlocks = minedBlocks s\<rparr>
              else True))"


text \<open>
  A small run for checking the engine on: the area (0,0,0)-(1,0,1), an engine that is
  mining it with two targets done, and a pass in which a stone block is in reach, the
  inventory has room, nobody interferes, the dig ends as given, and the block is still
  seen at the position on every tick afterwards.
\<close>

definition example_area :: NormalizedArea where
  "example_area = \<lparr>area_min = Vec3 0 0 0, area_max = Vec3 1 0 1\<rparr>"

definition example_engine :: MiningEngine where
  "example_engine =
     \<lparr>status = Mining, engine_area = Some example_area, totalBlocks = 4, minedBlocks = 2,
      currentTool = None, error_message = None, stateFile = None, emitted = [],
      antiStuckEnabled = True\<rparr>"

definition example_attempt :: "DigOutcome \<Rightarrow> AttemptEnv" where
  "example_attempt outcome =
     \<lparr>a_clearOverlapping = [],
      a_block = Some \<lparr>bname = ''stone'', boundingBox = ''block''\<rparr>,
      a_inventoryFull = False, a_deposit = [], a_freed = True, a_inventoryWait = [],
      a_distance = 2, a_canSee = True, a_goNear = [],
      a_targetBlock = Some \<lparr>bname = ''stone'', boundingBox = ''block''\<rparr>,
      a_equip = [], a_tool = ''Hand'',
      a_lookAt = [], a_lookAtThrows = False, a_distAfter = 2, a_canSeeAfter = True,
      a_dig = [], a_digOutcome = outcome,
      a_confirm = [], a_confirmPm = \<lparr>currentPing = 50, tps = 20\<rparr>,
      a_confirmSeen = (\<lambda>k. Some \<lparr>bname = ''stone'', boundingBox = ''block''\<rparr>),
      a_retrySleep = []\<rparr>"

definition example_config :: AppConfig where
  "example_config = \<lparr>healToThreshold = 18, foodThreshold = 18\<rparr>"

definition example_iter :: "AttemptEnv list \<Rightarrow> IterEnv" where
  "example_iter attempts =
     \<lparr>i_saveSleep = [], i_pm = \<lparr>currentPing = 50, tps = 20\<rparr>, i_autoPauseWait = [],
      i_health = 20, i_healWait = [], i_pauseWait = [], i_eat = [],
      i_attempts = attempts,
      i_delayPm = \<lparr>currentPing = 50, tps = 20\<rparr>, i_delaySleep = []\<rparr>"




section \<open>Properties of the adaptive timings\<close>

text \<open>
  Claim C7. The dig timeout at latency 0 and tick rate 20 is strictly below the dig
  timeout at latency 500 and tick rate 20, and for every latency and tick rate the capped
  timings stay within their caps: dig timeout at most 30000 ms, near-path timeout at most
  30000 ms, long navigation timeout at most 300000 ms, inter-block delay at most 200 ms and
  safe-dig timeout at most 15000 ms.
\<close>

theorem timing_monotone_and_capped:
  "digTimeout \<lparr>currentPing = 0, tps = 20\<rparr> < digTimeout \<lparr>currentPing = 500, tps = 20\<rparr>
   \<and> (\<forall>pm. digTimeout pm \<le> 30000
          \<and> pathfindTimeout pm \<le> 30000
          \<and> navigationTimeout pm \<le> 300000
          \<and> interBlockDelay pm \<le> 200
          \<and> safedigTimeout pm \<le> 15000)"
proof -
  have lo: "digTimeout \<lparr>currentPing = 0, tps = 20\<rparr> = 6000"
    by (simp add: digTimeout_def Math_round_def)
  have hi: "digTimeout \<lparr>currentPing = 500, tps = 20\<rparr> = 7000"
    by (simp add: digTimeout_def Math_round_def)
  have caps: "digTimeout pm \<le> 30000 \<and> pathfindTimeout pm \<le> 30000
      \<and> navigationTimeout pm \<le> 300000 \<and> interBlockDelay pm \<le> 200
      \<and> safedigTimeout pm \<le> 15000" for pm
    by (simp add: digTimeout_def pathfindTimeout_def navigationTimeout_def
        interBlockDelay_def safedigTimeout_def Let_def)
  from lo hi caps show ?thesis by simp
qed

section \<open>Properties of the traversal planner\<close>

lemma loop_x_up_eq:
  "loop_x_up x area y z ps = ps @ map (\<lambda>x. Vec3 x y z) [x .. vx (area_max area)]"
proof (induction x area y z ps rule: loop_x_up.induct)
  case (1 x area y z positions)
  show ?case
  proof (cases "x \<le> vx (area_max area)")
    case True
    then show ?thesis using 1 by (subst loop_x_up.simps) (simp add: upto_rec1)
  next
    case False
    then show ?thesis by (subst loop_x_up.simps) simp
  qed
qed

lemma loop_x_down_eq:
  "loop_x_down x area y z ps = ps @ map (\<lambda>x. Vec3 x y z) (rev [vx (area_min area) .. x])"
proof (induction x area y z ps rule: loop_x_down.induct)
  case (1 x area y z positions)
  show ?case
  proof (cases "x \<ge> vx (area_min area)")
    case True
    then show ?thesis using 1 by (subst loop_x_down.simps) (simp add: upto_rec2)
  next
    case False
    then show ?thesis by (subst loop_x_down.simps) simp
  qed
qed

lemma loop_z_eq:
  "loop_z z r area y ps = ps @ concat (map (row_from r z area y) [z .. vz (area_max area)])"
proof (induction z r area y ps rule: loop_z.induct)
  case (1 z reverseX area y positions)
  show ?case
  proof (cases "z \<le> vz (area_max area)")
    case True
    let ?row = "if reverseX
              then loop_x_down (vx (area_max area)) area y z positions
              else loop_x_up (vx (area_min area)) area y z positions"
    have shift: "map (row_from (\<not> reverseX) (z + 1) area y) [z + 1 .. vz (area_max area)]
               = map (row_from reverseX z area y) [z + 1 .. vz (area_max area)]"
      by (rule map_cong) (auto simp: row_from_def)
    have first: "?row = positions @ row_from reverseX z area y z"
      by (simp add: loop_x_up_eq loop_x_down_eq row_from_def)
    have "loop_z z reverseX area y positions = loop_z (z + 1) (\<not> reverseX) area y ?row"
      using True by (subst loop_z.simps) simp
    also have "\<dots> = ?row @ concat (map (row_from (\<not> reverseX) (z + 1) area y)
                                      [z + 1 .. vz (area_max area)])"
      using 1 [OF True] .
    also have "\<dots> = positions @ concat (map (row_from reverseX z area y)
                                      (z # [z + 1 .. vz (area_max area)]))"
      unfolding shift first by simp
    also have "z # [z + 1 .. vz (area_max area)] = [z .. vz (area_max area)]"
      using True by (simp add: upto_rec1 [of z])
    finally show ?thesis .
  next
    case False
    then show ?thesis by (subst loop_z.simps) simp
  qed
qed

lemma loop_y_eq:
  "loop_y y area ps = ps @ concat (map (zigzag_layer area) (rev [vy (area_min area) .. y]))"
proof (induction y area ps rule: loop_y.induct)
  case (1 y area positions)
  show ?case
  proof (cases "y \<ge> vy (area_min area)")
    case True
    let ?layer = "loop_z (vz (area_min area)) False area y positions"
    have row: "row_from False (vz (area_min area)) area y = zigzag_row area y"
      by (rule ext) (simp add: row_from_def zigzag_row_def)
    have first: "?layer = positions @ zigzag_layer area y"
      by (simp add: loop_z_eq row zigzag_layer_def)
    have "loop_y y area positions = loop_y (y - 1) area ?layer"
      using True by (subst loop_y.simps) simp
    also have "\<dots> = ?layer @ concat (map (zigzag_layer area) (rev [vy (area_min area) .. y - 1]))"
      using 1 [OF True] .
    also have "\<dots> = positions @ concat (map (zigzag_layer area)
                                       (rev ([vy (area_min area) .. y - 1] @ [y])))"
      unfolding first by simp
    also have "[vy (area_min area) .. y - 1] @ [y] = [vy (area_min area) .. y]"
      using True by (simp add: upto_rec2 [of _ y])
    finally show ?thesis .
  next
    case False
    then show ?thesis by (subst loop_y.simps) simp
  qed
qed

lemma generate_eq_order: "generateZigzagPositions area = zigzag_order area"
  by (simp add: generateZigzagPositions_def loop_y_eq zigzag_order_def)

lemma length_zigzag_row:
  "length (zigzag_row area y z) = nat (vx (area_max area) - vx (area_min area) + 1)"
  by (simp add: zigzag_row_def)

lemma length_concat_const:
  "(\<And>x. x \<in> set xs \<Longrightarrow> length (f x) = n) \<Longrightarrow> length (concat (map f xs)) = length xs * n"
  by (induction xs) auto

lemma length_zigzag_layer:
  "length (zigzag_layer area y) =
     nat (vz (area_max area) - vz (area_min area) + 1)
     * nat (vx (area_max area) - vx (area_min area) + 1)"
  unfolding zigzag_layer_def
  by (subst length_concat_const [where n = "nat (vx (area_max area) - vx (area_min area) + 1)"])
     (simp_all add: length_zigzag_row)

lemma length_zigzag_order:
  "length (zigzag_order area) =
     nat (vy (area_max area) - vy (area_min area) + 1)
     * (nat (vz (area_max area) - vz (area_min area) + 1)
        * nat (vx (area_max area) - vx (area_min area) + 1))"
  unfolding zigzag_order_def
  by (subst length_concat_const [where n = "nat (vz (area_max area) - vz (area_min area) + 1)
     * nat (vx (area_max area) - vx (area_min area) + 1)"])
     (simp_all add: length_zigzag_layer)

lemma length_zigzag_order_areaSize:
  assumes "is_normalized area"
  shows "int (length (zigzag_order area)) = areaSize area"
  using assms
  by (simp add: length_zigzag_order areaSize_def is_normalized_def nat_mult_distrib algebra_simps)

lemma set_zigzag_row:
  "set (zigzag_row area y z) = {p. vx (area_min area) \<le> vx p \<and> vx p \<le> vx (area_max area)
      \<and> vy p = y \<and> vz p = z}"
proof -
  have "set (zigzag_row area y z) = (\<lambda>x. Vec3 x y z) ` {vx (area_min area) .. vx (area_max area)}"
    by (simp add: zigzag_row_def)
  also have "\<dots> = {p. vx (area_min area) \<le> vx p \<and> vx p \<le> vx (area_max area)
      \<and> vy p = y \<and> vz p = z}"
  proof (rule set_eqI)
    fix p show "p \<in> (\<lambda>x. Vec3 x y z) ` {vx (area_min area) .. vx (area_max area)} \<longleftrightarrow>
      p \<in> {p. vx (area_min area) \<le> vx p \<and> vx p \<le> vx (area_max area) \<and> vy p = y \<and> vz p = z}"
      by (cases p) auto
  qed
  finally show ?thesis .
qed

lemma set_zigzag_layer:
  "set (zigzag_layer area y) = {p. vx (area_min area) \<le> vx p \<and> vx p \<le> vx (area_max area)
      \<and> vy p = y \<and> vz (area_min area) \<le> vz p \<and> vz p \<le> vz (area_max area)}"
  by (auto simp: zigzag_layer_def set_zigzag_row)

lemma set_zigzag_order: "set (zigzag_order area) = area_points area"
  by (auto simp: zigzag_order_def set_zigzag_layer area_points_def)

lemma area_points_eq:
  "area_points area = (\<lambda>(x, y, z). Vec3 x y z) `
     ({vx (area_min area) .. vx (area_max area)} \<times> {vy (area_min area) .. vy (area_max area)}
       \<times> {vz (area_min area) .. vz (area_max area)})"
proof (rule set_eqI)
  fix p show "p \<in> area_points area \<longleftrightarrow> p \<in> (\<lambda>(x, y, z). Vec3 x y z) `
     ({vx (area_min area) .. vx (area_max area)} \<times> {vy (area_min area) .. vy (area_max area)}
       \<times> {vz (area_min area) .. vz (area_max area)})"
    by (cases p) (auto simp: area_points_def image_iff)
qed

lemma card_area_points:
  "card (area_points area) =
     nat (vx (area_max area) - vx (area_min area) + 1)
     * (nat (vy (area_max area) - vy (area_min area) + 1)
        * nat (vz (area_max area) - vz (area_min area) + 1))"
proof -
  have inj: "inj_on (\<lambda>(x, y, z). Vec3 x y z) A" for A
    by (auto simp: inj_on_def)
  show ?thesis
    unfolding area_points_eq by (simp add: card_image [OF inj] card_cartesian_product)
qed

lemma distinct_zigzag_order: "distinct (zigzag_order area)"
proof (rule card_distinct)
  show "card (set (zigzag_order area)) = length (zigzag_order area)"
    by (simp add: set_zigzag_order card_area_points length_zigzag_order)
qed

text \<open>
  Claim C1. For every normalized area (minimum at most maximum in each component) of
  volume \<open>V\<close>, \<open>generateZigzagPositions\<close> returns exactly \<open>V\<close> coordinates, every integer
  point of the box occurs exactly once, and the order is: \<open>y\<close> descending from the top
  layer, \<open>z\<close> ascending inside a layer, \<open>x\<close> ascending in even rows and descending in odd
  rows. The corners (0,0,0) and (1,0,1) give (0,0,0), (1,0,0), (1,0,1), (0,0,1).
\<close>

theorem zigzag_covers_area_once_in_order:
  "(\<forall>area. is_normalized area \<longrightarrow>
      int (length (generateZigzagPositions area)) = areaSize area
      \<and> distinct (generateZigzagPositions area)
      \<and> set (generateZigzagPositions area) = area_points area
      \<and> generateZigzagPositions area = zigzag_order area)
   \<and> generateZigzagPositions (normalizeArea \<lparr>corner1 = Vec3 0 0 0, corner2 = Vec3 1 0 1\<rparr>)
       = [Vec3 0 0 0, Vec3 1 0 0, Vec3 1 0 1, Vec3 0 0 1]"
proof (intro conjI allI impI)
  fix area assume n: "is_normalized area"
  show "int (length (generateZigzagPositions area)) = areaSize area"
    using n by (simp add: generate_eq_order length_zigzag_order_areaSize)
  show "distinct (generateZigzagPositions area)"
    by (simp add: generate_eq_order distinct_zigzag_order)
  show "set (generateZigzagPositions area) = area_points area"
    by (simp add: generate_eq_order set_zigzag_order)
  show "generateZigzagPositions area = zigzag_order area"
    by (rule generate_eq_order)
next
  show "generateZigzagPositions (normalizeArea \<lparr>corner1 = Vec3 0 0 0, corner2 = Vec3 1 0 1\<rparr>)
       = [Vec3 0 0 0, Vec3 1 0 0, Vec3 1 0 1, Vec3 0 0 1]"
    by code_simp
qed

theorem zigzag_covers_area_once_in_order_witness:
  "is_normalized \<lparr>area_min = Vec3 0 0 0, area_max = Vec3 2 1 2\<rparr>
   \<and> length (generateZigzagPositions \<lparr>area_min = Vec3 0 0 0, area_max = Vec3 2 1 2\<rparr>) = 18
   \<and> distinct (generateZigzagPositions \<lparr>area_min = Vec3 0 0 0, area_max = Vec3 2 1 2\<rparr>)
   \<and> set (generateZigzagPositions \<lparr>area_min = Vec3 0 0 0, area_max = Vec3 2 1 2\<rparr>)
       = area_points \<lparr>area_min = Vec3 0 0 0, area_max = Vec3 2 1 2\<rparr>"
proof -
  let ?a = "\<lparr>area_min = Vec3 0 0 0, area_max = Vec3 2 1 2\<rparr>"
  have n: "is_normalized ?a" by (simp add: is_normalized_def)
  have sz: "areaSize ?a = 18" by (simp add: areaSize_def)
  from zigzag_covers_area_once_in_order have
    "is_normalized ?a \<longrightarrow>
      int (length (generateZigzagPositions ?a)) = areaSize ?a
      \<and> distinct (generateZigzagPositions ?a)
      \<and> set (generateZigzagPositions ?a) = area_points ?a
      \<and> generateZigzagPositions ?a = zigzag_order ?a"
    by blast
  with n have "int (length (generateZigzagPositions ?a)) = areaSize ?a
      \<and> distinct (generateZigzagPositions ?a)
      \<and> set (generateZigzagPositions ?a) = area_points ?a"
    by blast
  with n sz show ?thesis by simp
qed

section \<open>Properties of the recovery ladder\<close>

lemma minRecoveryLevel_range: "0 \<le> minRecoveryLevel pm \<and> minRecoveryLevel pm \<le> 2"
  by (simp add: minRecoveryLevel_def)

lemma triggerRecovery_level:
  "recoveryLevel (triggerRecovery reason now pm s) = recoveryLevel s
   \<or> recoveryLevel (triggerRecovery reason now pm s) = minRecoveryLevel pm"
  by (simp add: triggerRecovery_def Let_def)

lemma triggerRecovery_lower:
  "0 \<le> recoveryLevel s \<Longrightarrow> 0 \<le> recoveryLevel (triggerRecovery reason now pm s)"
  using triggerRecovery_level [of reason now pm s] minRecoveryLevel_range [of pm] by auto

lemma triggerRecovery_upper:
  "recoveryLevel s \<le> 5 \<Longrightarrow> recoveryLevel (triggerRecovery reason now pm s) \<le> 5"
  using triggerRecovery_level [of reason now pm s] minRecoveryLevel_range [of pm] by auto

lemma clearBlockingPath_begin_level:
  "recoveryLevel (clearBlockingPath_begin n s) = recoveryLevel s"
  by (simp add: clearBlockingPath_begin_def)

lemma level_ok_tickListener:
  assumes ok: "level_ok s"
  shows "level_ok (tickListener r s)"
  using ok
  by (simp add: level_ok_def tickListener_def Let_def triggerRecovery_lower triggerRecovery_upper
      split: option.splits)

lemma level_ok_checkForLoop:
  assumes ok: "level_ok s"
  shows "level_ok (checkForLoop r s)"
  using ok
  by (simp add: level_ok_def checkForLoop_def triggerRecovery_lower triggerRecovery_upper
      split: option.splits)

lemma level_ok_stallMonitor_pre:
  assumes ok: "level_ok s"
  shows "level_ok (case stall_moved r of
                    None \<Rightarrow> s
                  | Some moved \<Rightarrow>
                      if moved > 15 / 100
                      then s\<lparr>lastMoveTime := now, consecutiveStucks := 0,
                             blockClearAttempted := False\<rparr>
                      else if real_of_int (now - lastMoveTime s) > stallTimeThreshold (stall_pm r)
                      then
                        (if stall_pathfinderActive r \<and> \<not> recovering s
                         then
                           (if stall_blocking r > 0 \<and> \<not> blockClearAttempted s
                            then (clearBlockingPath_begin (stall_blocking r)
                                    (s\<lparr>blockClearAttempted := True\<rparr>))\<lparr>lastMoveTime := now\<rparr>
                            else (triggerRecovery ''stall'' now (stall_pm r)
                                    (s\<lparr>stats := (stats s)\<lparr>stalls := stalls (stats s) + 1\<rparr>,
                                       blockClearAttempted := False\<rparr>))\<lparr>lastMoveTime := now\<rparr>)
                         else s)
                      else s)"
  using ok
  by (simp add: level_ok_def clearBlockingPath_begin_level triggerRecovery_lower
      triggerRecovery_upper split: option.splits)

lemma level_ok_stallMonitor:
  assumes ok: "level_ok s"
  shows "level_ok (stallMonitor r s)"
proof (cases "active s \<and> stall_hasEntity r \<and> \<not> recovering s")
  case True
  show ?thesis
    unfolding stallMonitor_def Let_def if_P [OF True]
    by (rule level_ok_checkForLoop [OF level_ok_stallMonitor_pre [OF ok]])
next
  case False
  have "stallMonitor r s = s"
    by (simp only: stallMonitor_def if_not_P [OF False])
  then show ?thesis using ok by simp
qed

lemma level_ok_step:
  assumes ok: "level_ok s"
  shows "level_ok (recovery_step s e)"
proof (cases e)
  case (Enable now)
  then show ?thesis using ok by (simp add: enable_def level_ok_def)
next
  case Disable
  then show ?thesis using ok by (simp add: disable_def level_ok_def)
next
  case (Reset now)
  then show ?thesis by (simp add: reset_def level_ok_def)
next
  case (PhysicsTick r)
  then show ?thesis using ok by (simp add: level_ok_tickListener)
next
  case (StallInterval r)
  then show ?thesis using ok by (simp add: level_ok_stallMonitor)
next
  case (LevelReturns b)
  then show ?thesis using ok
    by (simp add: level_ok_def levelReturns_def split: RecoveryPc.splits)
next
  case (Recheck b)
  then show ?thesis using ok
    by (simp add: level_ok_def recheck_def MAX_RECOVERY_LEVEL_def split: RecoveryPc.splits)
next
  case RecoveryThrows
  then show ?thesis using ok
    by (simp add: level_ok_def recoveryThrows_def MAX_RECOVERY_LEVEL_def split: RecoveryPc.splits)
next
  case (ClearBlockingPath n)
  then show ?thesis using ok by (simp add: level_ok_def clearBlockingPath_begin_level)
next
  case ClearBlockingPathDone
  then show ?thesis using ok by (simp add: clearBlockingPath_end_def level_ok_def)
qed

lemma level_ok_foldl: "level_ok s \<Longrightarrow> level_ok (foldl recovery_step s evs)"
  by (induction evs arbitrary: s) (simp_all add: level_ok_step)

lemma level_ok_init: "level_ok antistuck_init"
  by (simp add: level_ok_def antistuck_init_def)

text \<open>
  Claim C5. Starting from the initial state of the subsystem, after any sequence of
  recovery events (triggers from either monitor with the floor raise, returns of the level
  routines including the level-5 reset, re-checks in both directions, failures, clear
  ticks, path clearing, enable, disable, reset) the recovery level lies between 0 and 5.
\<close>

theorem recovery_level_bounded:
  "0 \<le> recoveryLevel (recovery_run evs) \<and> recoveryLevel (recovery_run evs) \<le> 5"
  using level_ok_foldl [OF level_ok_init, of evs] by (simp add: recovery_run_def level_ok_def)

theorem recovery_level_bounded_witness:
  "0 \<le> recoveryLevel (recovery_run
       [Enable 0,
        PhysicsTick \<lparr>tick_hasEntity = True, tick_delta = None, tick_overlapping = 2,
          tick_now = 10000, tick_pm = \<lparr>currentPing = 400, tps = 20\<rparr>\<rparr>,
        LevelReturns True, Recheck True, Disable])
   \<and> recoveryLevel (recovery_run
       [Enable 0,
        PhysicsTick \<lparr>tick_hasEntity = True, tick_delta = None, tick_overlapping = 2,
          tick_now = 10000, tick_pm = \<lparr>currentPing = 400, tps = 20\<rparr>\<rparr>,
        LevelReturns True, Recheck True, Disable]) \<le> 5"
  by (rule recovery_level_bounded)

lemma triggerRecovery_guarded:
  "recovering s \<or> real_of_int (now - lastRecoveryTime s) < recoveryCooldown pm
   \<Longrightarrow> triggerRecovery reason now pm s = s"
  by (auto simp: triggerRecovery_def)

lemma triggerRecovery_executes:
  assumes "\<not> recovering s" "\<not> real_of_int (now - lastRecoveryTime s) < recoveryCooldown pm"
  shows "recovering (triggerRecovery reason now pm s)"
    and "lastRecoveryTime (triggerRecovery reason now pm s) = now"
    and "totalRecoveries (stats (triggerRecovery reason now pm s)) = totalRecoveries (stats s) + 1"
  using assms by (simp_all add: triggerRecovery_def Let_def)

lemma lastRecoveryTime_completion:
  "lastRecoveryTime (recheck b (levelReturns e s)) = lastRecoveryTime s"
  "lastRecoveryTime (recoveryThrows s) = lastRecoveryTime s"
  by (simp_all add: recheck_def levelReturns_def recoveryThrows_def split: RecoveryPc.splits)

text \<open>
  Claim C6. A trigger that arrives while a recovery is executing, or less than the
  adaptive cooldown (2000 ms plus the latency) after the start of the previous execution,
  does nothing: the whole state of the subsystem, in particular the level, the statistics
  and the in-recovery flag, is unchanged, no event is emitted and no level routine is
  dispatched. So of two such triggers only the first executes: it counts one recovery,
  and the second is void both during the execution of the first and after its completion
  (by re-check or by failure) while the cooldown lasts.
\<close>

theorem recovery_triggers_collapse:
  "(recovering s \<or> real_of_int (now - lastRecoveryTime s) < recoveryCooldown pm
      \<longrightarrow> triggerRecovery reason now pm s = s)
   \<and> (\<not> recovering s0 \<and> \<not> real_of_int (t1 - lastRecoveryTime s0) < recoveryCooldown pm1
      \<longrightarrow> totalRecoveries (stats (triggerRecovery r1 t1 pm1 s0)) = totalRecoveries (stats s0) + 1
        \<and> triggerRecovery r2 t2 pm2 (triggerRecovery r1 t1 pm1 s0) = triggerRecovery r1 t1 pm1 s0
        \<and> (real_of_int (t2 - t1) < 2000 + currentPing pm2
            \<longrightarrow> triggerRecovery r2 t2 pm2 (recheck b (levelReturns e (triggerRecovery r1 t1 pm1 s0)))
                  = recheck b (levelReturns e (triggerRecovery r1 t1 pm1 s0))
              \<and> triggerRecovery r2 t2 pm2 (recoveryThrows (triggerRecovery r1 t1 pm1 s0))
                  = recoveryThrows (triggerRecovery r1 t1 pm1 s0)))"
proof (intro conjI impI)
  assume "recovering s \<or> real_of_int (now - lastRecoveryTime s) < recoveryCooldown pm"
  then show "triggerRecovery reason now pm s = s" by (rule triggerRecovery_guarded)
next
  assume a: "\<not> recovering s0 \<and> \<not> real_of_int (t1 - lastRecoveryTime s0) < recoveryCooldown pm1"
  let ?s1 = "triggerRecovery r1 t1 pm1 s0"
  from a have ex: "recovering ?s1" "lastRecoveryTime ?s1 = t1"
    "totalRecoveries (stats ?s1) = totalRecoveries (stats s0) + 1"
    by (simp_all add: triggerRecovery_executes)
  show "totalRecoveries (stats ?s1) = totalRecoveries (stats s0) + 1" by (rule ex(3))
  show "triggerRecovery r2 t2 pm2 ?s1 = ?s1"
    by (rule triggerRecovery_guarded) (simp add: ex(1))
  assume w: "real_of_int (t2 - t1) < 2000 + currentPing pm2"
  show "triggerRecovery r2 t2 pm2 (recheck b (levelReturns e ?s1)) = recheck b (levelReturns e ?s1)"
    using w by (intro triggerRecovery_guarded disjI2)
       (simp add: lastRecoveryTime_completion ex(2) recoveryCooldown_def)
  show "triggerRecovery r2 t2 pm2 (recoveryThrows ?s1) = recoveryThrows ?s1"
    using w by (intro triggerRecovery_guarded disjI2)
       (simp add: lastRecoveryTime_completion ex(2) recoveryCooldown_def)
qed

theorem recovery_triggers_collapse_witness:
  "\<not> recovering antistuck_init
   \<and> \<not> real_of_int (10000 - lastRecoveryTime antistuck_init)
        < recoveryCooldown \<lparr>currentPing = 100, tps = 20\<rparr>
   \<and> real_of_int (11000 - 10000) < 2000 + currentPing \<lparr>currentPing = 100, tps = 20\<rparr>
   \<and> totalRecoveries (stats (triggerRecovery ''stall'' 10000 \<lparr>currentPing = 100, tps = 20\<rparr>
        antistuck_init)) = 1
   \<and> recovering (triggerRecovery ''stall'' 10000 \<lparr>currentPing = 100, tps = 20\<rparr> antistuck_init)
   \<and> triggerRecovery ''loop'' 10050 \<lparr>currentPing = 100, tps = 20\<rparr>
        (triggerRecovery ''stall'' 10000 \<lparr>currentPing = 100, tps = 20\<rparr> antistuck_init)
      = triggerRecovery ''stall'' 10000 \<lparr>currentPing = 100, tps = 20\<rparr> antistuck_init
   \<and> triggerRecovery ''loop'' 11000 \<lparr>currentPing = 100, tps = 20\<rparr>
        (recheck False (levelReturns True
          (triggerRecovery ''stall'' 10000 \<lparr>currentPing = 100, tps = 20\<rparr> antistuck_init)))
      = recheck False (levelReturns True
          (triggerRecovery ''stall'' 10000 \<lparr>currentPing = 100, tps = 20\<rparr> antistuck_init))"
proof -
  let ?pm = "\<lparr>currentPing = 100, tps = 20\<rparr>"
  let ?s1 = "triggerRecovery ''stall'' 10000 ?pm antistuck_init"
  have h1: "\<not> recovering antistuck_init
      \<and> \<not> real_of_int (10000 - lastRecoveryTime antistuck_init) < recoveryCooldown ?pm"
    by (simp add: antistuck_init_def recoveryCooldown_def)
  have h2: "real_of_int (11000 - 10000) < 2000 + currentPing ?pm" by simp
  have h3: "recovering ?s1"
    by (simp add: triggerRecovery_def antistuck_init_def recoveryCooldown_def Let_def)
  have z: "totalRecoveries (stats antistuck_init) = 0"
    by (simp add: antistuck_init_def zero_stats_def)
  from recovery_triggers_collapse [where ?s0.0 = antistuck_init and ?t1.0 = 10000
      and ?pm1.0 = ?pm and ?r1.0 = "''stall''" and ?r2.0 = "''loop''" and ?t2.0 = 11000
      and ?pm2.0 = ?pm and b = False and e = True and s = ?s1 and now = 10050
      and pm = ?pm and reason = "''loop''"] h1 h2 h3 z
  show ?thesis by simp
qed

section \<open>Properties of the blocks dug by the recovery routines\<close>

lemma shouldMine_not_bedrock: "shouldMine b \<Longrightarrow> bname b \<noteq> ''bedrock''"
  by (auto simp: shouldMine_def SKIP_BLOCKS_def)

lemma foldl_inv:
  assumes "\<And>d x. I d \<Longrightarrow> I (f d x)" "I d"
  shows "I (foldl f d xs)"
  using assms(2) by (induction xs arbitrary: d) (simp_all add: assms(1))

lemma foldl_inv_set:
  assumes "\<And>d x. x \<in> set xs \<Longrightarrow> I d \<Longrightarrow> I (f d x)" "I d"
  shows "I (foldl f d xs)"
  using assms by (induction xs arbitrary: d) simp_all

lemma dug_all_safeDig: "dug_all P d \<Longrightarrow> P b \<Longrightarrow> dug_all P (safeDig d b)"
  by (simp add: dug_all_def safeDig_def)

lemma dug_all_suspend: "dug_all P (suspend d) = dug_all P d"
  by (simp add: dug_all_def suspend_def)

lemma dug_all_fresh: "dug_all P (fresh t)"
  by (simp add: dug_all_def fresh_def)

lemma overlapping_not_bedrock: "list_all not_bedrock (getOverlappingBlocks view)"
  by (auto simp: getOverlappingBlocks_def Let_def list_all_iff not_bedrock_def
      split: option.splits if_splits)

lemma tryAdd_inv:
  "list_all (\<lambda>b. shouldMine (snd b)) (snd st) \<Longrightarrow> list_all (\<lambda>b. shouldMine (snd b)) (snd (tryAdd view st p))"
  by (simp add: tryAdd_def split: option.splits)

lemma blocking_shouldMine: "list_all (\<lambda>b. shouldMine (snd b)) (getBlockingBlocks view)"
proof -
  have "list_all (\<lambda>b. shouldMine (snd b)) (snd (foldl (tryAdd view) ([], []) cs))" for cs
    by (rule foldl_inv [where I = "\<lambda>st. list_all (\<lambda>b. shouldMine (snd b)) (snd st)"])
       (simp_all add: tryAdd_inv)
  then show ?thesis
    by (simp add: getBlockingBlocks_def Let_def split: option.splits)
qed

lemma blocking_not_bedrock: "list_all not_bedrock (getBlockingBlocks view)"
  using blocking_shouldMine [of view]
  by (auto simp: list_all_iff not_bedrock_def dest: shouldMine_not_bedrock)

lemma shouldMine_imp_not_bedrock: "shouldMine (snd b) \<Longrightarrow> not_bedrock b"
  by (simp add: not_bedrock_def shouldMine_not_bedrock)

lemma dug_all_clearOverlapping:
  "dug_all not_bedrock d \<Longrightarrow> dug_all not_bedrock (clearOverlapping tline d)"
  unfolding clearOverlapping_def
  by (rule foldl_inv)
     (auto simp: dug_all_suspend intro!: dug_all_safeDig shouldMine_imp_not_bedrock)

lemma dug_all_foldl_safeDig:
  "list_all P bs \<Longrightarrow> dug_all P d \<Longrightarrow> dug_all P (foldl safeDig d bs)"
  by (rule foldl_inv_set) (auto simp: list_all_iff intro: dug_all_safeDig)

lemma dug_all_foldl_safeDig_suspend:
  "list_all P bs \<Longrightarrow> dug_all P d \<Longrightarrow> dug_all P (foldl (\<lambda>d b. suspend (safeDig d b)) d bs)"
  by (rule foldl_inv_set) (auto simp: list_all_iff dug_all_suspend intro: dug_all_safeDig)

lemma dug_all_foldl_minable:
  "dug_all not_bedrock d \<Longrightarrow>
   dug_all not_bedrock (foldl (\<lambda>d b. if \<not> shouldMine (snd b) then d else safeDig d b) d bs)"
  by (rule foldl_inv)
     (auto intro!: dug_all_safeDig shouldMine_imp_not_bedrock)

lemma dug_all_clearBlockingPath:
  "dug_all not_bedrock d \<Longrightarrow> dug_all not_bedrock (clearBlockingPath r tline d)"
  by (simp add: clearBlockingPath_def Let_def dug_all_foldl_safeDig_suspend blocking_not_bedrock)

lemma dug_all_level0:
  "dug_all not_bedrock d \<Longrightarrow> dug_all not_bedrock (recoverLevel0_jump tline d)"
  by (simp add: recoverLevel0_jump_def dug_all_suspend dug_all_foldl_safeDig blocking_not_bedrock)

lemma dug_all_level1:
  "dug_all not_bedrock d \<Longrightarrow> dug_all not_bedrock (recoverLevel1_jumpAndMove tline d)"
  by (simp add: recoverLevel1_jumpAndMove_def Let_def dug_all_suspend dug_all_foldl_minable
      dug_all_foldl_safeDig_suspend blocking_not_bedrock split: option.splits)

lemma dug_all_level2:
  "dug_all not_bedrock d \<Longrightarrow> dug_all not_bedrock (recoverLevel2_digOverlapping tline d)"
  by (simp add: recoverLevel2_digOverlapping_def Let_def dug_all_suspend dug_all_foldl_minable)

lemma dug_all_digIfMinable:
  "dug_all not_bedrock d \<Longrightarrow> dug_all not_bedrock (digIfMinable tline c d off)"
  by (auto simp: digIfMinable_def Let_def split: option.splits prod.splits
      intro!: dug_all_safeDig shouldMine_imp_not_bedrock)

lemma dug_all_level3:
  "dug_all not_bedrock d \<Longrightarrow> dug_all not_bedrock (recoverLevel3_clearSpace tline d)"
  unfolding recoverLevel3_clearSpace_def Let_def
  by (auto simp: dug_all_suspend split: option.splits intro!: foldl_inv dug_all_digIfMinable)

lemma dug_all_level4:
  "dug_all not_bedrock d \<Longrightarrow> dug_all not_bedrock (recoverLevel4_digUp tline d)"
  unfolding recoverLevel4_digUp_def Let_def
  by (auto simp: dug_all_suspend split: option.splits
      intro!: foldl_inv dug_all_digIfMinable dug_all_level3)

lemma dug_all_digUnlessBedrock:
  "dug_all not_bedrock d \<Longrightarrow> dug_all not_bedrock (digUnlessBedrock tline c d off)"
  by (auto simp: digUnlessBedrock_def Let_def split: option.splits prod.splits
      intro!: dug_all_safeDig simp: not_bedrock_def)

lemma offset_eq_below:
  "offset c dx dy dz = offset c 0 (- 1) 0 \<longleftrightarrow> dx = 0 \<and> dz = 0 \<and> dy = - 1"
  by (auto simp: offset_def)

lemma dug_all_digUnlessBedrock_below:
  "dug_all (not_at (offset c 0 (- 1) 0)) d \<Longrightarrow>
   dug_all (not_at (offset c 0 (- 1) 0)) (digUnlessBedrock tline c d off)"
  by (auto simp: digUnlessBedrock_def Let_def not_at_def offset_eq_below
      split: option.splits prod.splits intro!: dug_all_safeDig)

lemma dug_all_level5:
  "dug_all not_bedrock d \<Longrightarrow> dug_all not_bedrock (recoverLevel5_emergency tline d)"
  unfolding recoverLevel5_emergency_def Let_def
  by (auto simp: dug_all_suspend split: option.splits intro!: foldl_inv dug_all_digUnlessBedrock)

lemma dug_all_level5_below:
  assumes "entity (tline (clock d)) = Some ent"
    and "dug_all (not_at (offset (floored (position ent)) 0 (- 1) 0)) d"
  shows "dug_all (not_at (offset (floored (position ent)) 0 (- 1) 0)) (recoverLevel5_emergency tline d)"
  using assms unfolding recoverLevel5_emergency_def Let_def now_view_def
  by (auto simp: dug_all_suspend intro!: foldl_inv dug_all_digUnlessBedrock_below)

lemma dug_all_recovery_action:
  "dug_all not_bedrock d \<Longrightarrow> dug_all not_bedrock (recovery_action level tline d)"
  by (simp add: recovery_action_def dug_all_level0 dug_all_level1 dug_all_level2 dug_all_level3
      dug_all_level4 dug_all_level5)

text \<open>
  Claim C10. No recovery action digs bedrock. The overlap scan returns no bedrock block,
  so clearing the blocks the bot is stuck in never targets one; the routine of every
  level of the ladder, the path clearing and the forced clearing hand only non-bedrock
  blocks to the dig, however the world changes meanwhile; and the level-5 emergency
  routine never digs the block directly beneath the feet of the bot.
\<close>

theorem recovery_never_digs_bedrock:
  "list_all not_bedrock (getOverlappingBlocks view)
   \<and> dug_all not_bedrock (clearOverlapping tline (fresh t))
   \<and> dug_all not_bedrock (clearBlockingPath isRecovering tline (fresh t))
   \<and> dug_all not_bedrock (forceClearArea tline (fresh t))
   \<and> dug_all not_bedrock (recovery_action level tline (fresh t))
   \<and> dug_all not_bedrock (recoverLevel5_emergency tline (fresh t))
   \<and> (entity (tline t) = Some ent \<longrightarrow>
        dug_all (not_at (offset (floored (position ent)) 0 (- 1) 0))
          (recoverLevel5_emergency tline (fresh t)))"
proof (intro conjI impI)
  show "list_all not_bedrock (getOverlappingBlocks view)"
    by (rule overlapping_not_bedrock)
  show "dug_all not_bedrock (clearOverlapping tline (fresh t))"
    by (rule dug_all_clearOverlapping [OF dug_all_fresh])
  show "dug_all not_bedrock (clearBlockingPath isRecovering tline (fresh t))"
    by (rule dug_all_clearBlockingPath [OF dug_all_fresh])
  show "dug_all not_bedrock (forceClearArea tline (fresh t))"
    unfolding forceClearArea_def by (rule dug_all_level3 [OF dug_all_fresh])
  show "dug_all not_bedrock (recovery_action level tline (fresh t))"
    by (rule dug_all_recovery_action [OF dug_all_fresh])
  show "dug_all not_bedrock (recoverLevel5_emergency tline (fresh t))"
    by (rule dug_all_level5 [OF dug_all_fresh])
next
  assume "entity (tline t) = Some ent"
  then have "entity (tline (clock (fresh t))) = Some ent" by (simp add: fresh_def)
  then show "dug_all (not_at (offset (floored (position ent)) 0 (- 1) 0))
          (recoverLevel5_emergency tline (fresh t))"
    by (rule dug_all_level5_below) (rule dug_all_fresh)
qed

lemma example_level5:
  "dug (recoverLevel5_emergency (\<lambda>t. example_view) (fresh 0))
     = [(Vec3 1 64 0, \<lparr>bname = ''stone'', boundingBox = ''block''\<rparr>)]"
  by code_simp

theorem recovery_never_digs_bedrock_witness:
  "entity example_view
     = Some \<lparr>position = RVec3 (1 / 2) 64 (1 / 2), velocity = RVec3 0 0 0, yaw = 0, onGround = True\<rparr>
   \<and> dug (recoverLevel5_emergency (\<lambda>t. example_view) (fresh 0))
       = [(Vec3 1 64 0, \<lparr>bname = ''stone'', boundingBox = ''block''\<rparr>)]
   \<and> dug_all not_bedrock (recoverLevel5_emergency (\<lambda>t. example_view) (fresh 0))
   \<and> dug_all (not_at (Vec3 0 63 0)) (recoverLevel5_emergency (\<lambda>t. example_view) (fresh 0))"
proof -
  let ?ent = "\<lparr>position = RVec3 (1 / 2) 64 (1 / 2), velocity = RVec3 0 0 0, yaw = 0,
    onGround = True\<rparr>"
  have e: "entity ((\<lambda>t. example_view) (0::nat)) = Some ?ent"
    by (simp add: example_view_def)
  have below: "offset (floored (position ?ent)) 0 (- 1) 0 = Vec3 0 63 0"
    by (simp add: offset_def floored_def)
  from recovery_never_digs_bedrock [where tline = "\<lambda>t. example_view" and t = 0 and ent = ?ent]
    e below example_level5
  show ?thesis by simp
qed

section \<open>Properties of the navigator\<close>

text \<open>
  What the wrapper does achieve. From any pending state, each of the three exits it
  handles settles the promise with no control input on, and the timeout stops the
  pathfinder first. Whichever callback settles the promise of a call, no control input is
  on at that moment.
\<close>

lemma handled_exits_release_controls:
  assumes "\<not> isDone s" "settled s = None"
  shows "timer s \<Longrightarrow> settled (timerFires s) = Some (Inl (JsError ''Path timeout''))
           \<and> pathfinderStops (timerFires s) = pathfinderStops s + 1
           \<and> controls (timerFires s) = {}"
    and "gotoPending s \<Longrightarrow> settled (gotoResolved s) = Some (Inr ())
           \<and> controls (gotoResolved s) = {}"
    and "gotoPending s \<Longrightarrow> settled (gotoRejected msg s) = Some (Inl (JsError msg))
           \<and> controls (gotoRejected msg s) = {}"
  using assms by (simp_all add: timerFires_def gotoResolved_def gotoRejected_def finish_def)

lemma settling_step_releases_controls:
  assumes "settled s = None" "settled (goto_step s e) \<noteq> None"
  shows "controls (goto_step s e) = {}"
proof (cases e)
  case (StuckCheck pm hasEntity moved canClear)
  then show ?thesis using assms by (auto simp: stuckCheck_def Let_def split: if_splits)
next
  case JumpRelease
  then show ?thesis using assms by (auto simp: jumpRelease_def Let_def split: if_splits)
next
  case TimerFires
  then show ?thesis using assms by (auto simp: timerFires_def finish_def split: if_splits)
next
  case GotoResolved
  then show ?thesis using assms by (auto simp: gotoResolved_def finish_def split: if_splits)
next
  case (GotoRejected msg)
  then show ?thesis using assms by (auto simp: gotoRejected_def finish_def split: if_splits)
next
  case (SetControlState c on)
  then show ?thesis using assms by (simp add: setControlState_def)
qed

lemma navigator_stop_releases_controls: "controls (navigator_stop s) = {}"
  by (simp add: navigator_stop_def)





section \<open>Properties of the mining engine\<close>

lemma minedBlocks_run_command: "minedBlocks (run_command s c) = minedBlocks s"
  by (cases c) (simp_all add: pause_def resume_def stop_def emit_def save_def clear_def
      split: option.splits)

lemma minedBlocks_await: "minedBlocks (await cmds s) = minedBlocks s"
  unfolding await_def
  by (induction cmds arbitrary: s) (simp_all add: minedBlocks_run_command)

lemma await_Nil: "await [] s = s"
  by (simp add: await_def)

lemma minedBlocks_inventoryWait:
  "inventoryWait waits s = Some s' \<Longrightarrow> minedBlocks s' = minedBlocks s"
proof (induction waits arbitrary: s)
  case Nil
  then show ?case by (simp split: if_splits)
next
  case (Cons w waits)
  obtain cmds full where w: "w = (cmds, full)" by (cases w)
  show ?case
  proof (cases "status s = Paused")
    case False
    with Cons.prems w show ?thesis by simp
  next
    case True
    show ?thesis
    proof (cases full)
      case False
      with Cons.prems w True show ?thesis by (auto simp: Let_def minedBlocks_await)
    next
      case full: True
      with Cons.prems w True have "inventoryWait waits (await cmds s) = Some s'"
        by (simp add: Let_def)
      from Cons.IH [OF this] show ?thesis by (simp add: minedBlocks_await)
    qed
  qed
qed

lemma attempt_failed_cases:
  "\<exists>s'. attempt_failed e s = Retry s' \<and> minedBlocks s' = minedBlocks s"
  by (simp add: attempt_failed_def minedBlocks_await)

lemma attempt_dig_cases:
  "(\<exists>s'. attempt_dig pos a e b s = Retry s' \<and> minedBlocks s' = minedBlocks s)
   \<or> (\<exists>s'. attempt_dig pos a e b s = Exit Success s' \<and> minedBlocks s' = minedBlocks s
        \<and> stateFile s' = Some \<lparr>saved_area = a, saved_minedBlocks = minedBlocks s\<rparr>)"
  by (simp add: attempt_dig_def attempt_failed_def Let_def minedBlocks_await save_def emit_def
      split: DigOutcome.splits)

lemma attempt_post_dig: "attempt_post a s (attempt_dig pos a e b s)"
  using attempt_dig_cases [of pos a e b s] by (auto simp: attempt_post_def)

lemma attempt_post_mono:
  "attempt_post a s1 r \<Longrightarrow> minedBlocks s1 = minedBlocks s \<Longrightarrow> attempt_post a s r"
  by (simp add: attempt_post_def split: AttemptResult.splits)

lemma attempt_post_target: "attempt_post a s (attempt_target pos a e s)"
proof -
  let ?s1 = "if a_distance e > REACH_DISTANCE \<or> \<not> a_canSee e then await (a_goNear e) s else s"
  have m1: "minedBlocks ?s1 = minedBlocks s" by (simp add: minedBlocks_await)
  show ?thesis
  proof (cases "a_targetBlock e")
    case None
    then show ?thesis using m1 by (simp add: attempt_target_def attempt_post_def Let_def)
  next
    case (Some tb)
    show ?thesis
    proof (cases "shouldMine tb")
      case False
      then show ?thesis using Some m1
        by (simp add: attempt_target_def attempt_post_def Let_def)
    next
      case True
      let ?s2 = "(await (a_equip e) ?s1)\<lparr>currentTool := Some (a_tool e)\<rparr>"
      have m2: "minedBlocks ?s2 = minedBlocks s" using m1 by (simp add: minedBlocks_await)
      have "attempt_target pos a e s = attempt_dig pos a e tb ?s2"
        using Some True by (simp add: attempt_target_def Let_def)
      then show ?thesis
        using attempt_post_mono [OF attempt_post_dig [of a ?s2 pos e tb] m2] by simp
    qed
  qed
qed

lemma attempt_post_attempt: "attempt_post a s (attempt pos a e s)"
proof (cases "status s = Idle")
  case True
  then show ?thesis by (simp add: attempt_def attempt_post_def)
next
  case notIdle: False
  let ?s1 = "await (a_clearOverlapping e) s"
  have m1: "minedBlocks ?s1 = minedBlocks s" by (simp add: minedBlocks_await)
  show ?thesis
  proof (cases "a_block e")
    case None
    then show ?thesis using notIdle m1 by (simp add: attempt_def attempt_post_def Let_def)
  next
    case (Some blk)
    show ?thesis
    proof (cases "shouldMine blk")
      case False
      then show ?thesis using notIdle Some m1
        by (simp add: attempt_def attempt_post_def Let_def)
    next
      case mine: True
      show ?thesis
      proof (cases "a_inventoryFull e")
        case False
        then have "attempt pos a e s = attempt_target pos a e ?s1"
          using notIdle Some mine by (simp add: attempt_def Let_def)
        then show ?thesis
          using attempt_post_mono [OF attempt_post_target [of a ?s1 pos e] m1] by simp
      next
        case full: True
        let ?s2 = "emit InventoryFull (?s1\<lparr>error_message := Some ''Depositing items...''\<rparr>)"
        let ?s3 = "(await (a_deposit e) ?s2)\<lparr>error_message := None\<rparr>"
        have m3: "minedBlocks ?s3 = minedBlocks s"
          using m1 by (simp add: minedBlocks_await emit_def)
        show ?thesis
        proof (cases "a_freed e")
          case True
          then have "attempt pos a e s = attempt_target pos a e ?s3"
            using notIdle Some mine full by (simp add: attempt_def Let_def)
          then show ?thesis
            using attempt_post_mono [OF attempt_post_target [of a ?s3 pos e] m3] by simp
        next
          case False
          let ?s4 = "save a (minedBlocks ?s3)
                                 (?s3\<lparr>status := Paused,
                                    error_message := Some ''Inventory full, no chest found''\<rparr>)"
          have m4: "minedBlocks ?s4 = minedBlocks s" using m3 by (simp add: save_def)
          have unf: "attempt pos a e s =
                (case inventoryWait (a_inventoryWait e) ?s4 of
                           None \<Rightarrow> StillWaiting
                         | Some s5 \<Rightarrow>
                             if status s5 \<noteq> Mining then Exit InventoryBlocked s5
                             else attempt_target pos a e s5)"
            using notIdle Some mine full False by (simp add: attempt_def Let_def)
          show ?thesis
          proof (cases "inventoryWait (a_inventoryWait e) ?s4")
            case None
            then show ?thesis unfolding unf by (simp add: attempt_post_def)
          next
            case (Some s5)
            have m5: "minedBlocks s5 = minedBlocks s"
              using minedBlocks_inventoryWait [OF Some] m4 by simp
            show ?thesis
            proof (cases "status s5 = Mining")
              case True
              then show ?thesis unfolding unf using Some
                  attempt_post_mono [OF attempt_post_target [of a s5 pos e] m5] by simp
            next
              case False
              then show ?thesis unfolding unf using Some m5 by (simp add: attempt_post_def)
            qed
          qed
        qed
      qed
    qed
  qed
qed


lemma mineBlock_loop_take:
  "mineBlock_loop n pos a envs s = mineBlock_loop n pos a (take (3 - n) envs) s"
proof (induction envs arbitrary: n s)
  case Nil
  then show ?case by simp
next
  case (Cons e es)
  show ?case
  proof (cases "n < 3")
    case False
    then show ?thesis by simp
  next
    case True
    then obtain k where k: "3 - n = Suc k" "3 - (n + 1) = k" by (cases "3 - n") auto
    show ?thesis
      using True Cons.IH [of "n + 1"] k
      by (simp split: AttemptResult.splits)
  qed
qed

lemma waitForBlockBreak_loop_iff:
  "waitForBlockBreak_loop seen i n = (\<exists>k. i \<le> k \<and> k < n \<and> block_gone (seen k))"
proof (induction seen i n rule: waitForBlockBreak_loop.induct)
  case (1 seen i maxTicks)
  show ?case
  proof (cases "i < maxTicks")
    case False
    then show ?thesis by (subst waitForBlockBreak_loop.simps) auto
  next
    case True
    show ?thesis
    proof (cases "block_gone (seen i)")
      case gone: True
      then show ?thesis using True by (subst waitForBlockBreak_loop.simps) auto
    next
      case False
      have "waitForBlockBreak_loop seen i maxTicks = waitForBlockBreak_loop seen (i + 1) maxTicks"
        using True False by (subst waitForBlockBreak_loop.simps) simp
      also have "\<dots> = (\<exists>k. i + 1 \<le> k \<and> k < maxTicks \<and> block_gone (seen k))"
        using 1 [OF True False] .
      also have "\<dots> = (\<exists>k. i \<le> k \<and> k < maxTicks \<and> block_gone (seen k))"
        using False by (metis Suc_eq_plus1 Suc_leD Suc_leI le_neq_implies_less)
      finally show ?thesis .
    qed
  qed
qed

lemma minedBlocks_autoPause_wait:
  "autoPause_wait pm waits s = Some s' \<Longrightarrow> minedBlocks s' = minedBlocks s"
proof (induction waits arbitrary: pm s)
  case Nil
  then show ?case by (simp split: if_splits)
next
  case (Cons w waits)
  obtain cmds pm' where w: "w = (cmds, pm')" by (cases w)
  show ?case
  proof (cases "shouldAutoPause pm \<and> status s = Paused")
    case True
    with Cons.prems w have "autoPause_wait pm' waits (await cmds s) = Some s'" by simp
    from Cons.IH [OF this] show ?thesis by (simp add: minedBlocks_await)
  next
    case False
    with Cons.prems w show ?thesis by auto
  qed
qed

lemma minedBlocks_autoPause:
  "autoPause pm waits s = Some s' \<Longrightarrow> minedBlocks s' = minedBlocks s"
proof (cases "shouldAutoPause pm \<and> status s = Mining")
  case False
  assume "autoPause pm waits s = Some s'"
  with False show ?thesis by (auto simp: autoPause_def)
next
  case True
  assume "autoPause pm waits s = Some s'"
  with True obtain t where t: "autoPause_wait pm waits (autoPause_enter s) = Some t"
    and s': "s' = autoPause_leave t"
    by (auto simp: autoPause_def)
  from minedBlocks_autoPause_wait [OF t] s' show ?thesis
    by (simp add: autoPause_leave_def autoPause_enter_def emit_def)
qed

lemma autoPause_wait_bad:
  assumes "shouldAutoPause pm" "status s = Paused" "\<forall>p\<in>set bad. shouldAutoPause p"
  shows "autoPause_wait pm (map (Pair []) bad) s = None"
    and "\<not> shouldAutoPause good \<Longrightarrow>
         autoPause_wait pm (map (Pair []) bad @ ([], good) # rest) s = Some s"
  using assms
proof (induction bad arbitrary: pm)
  case Nil
  { case 1 then show ?case by simp }
  { case 2 then show ?case by (cases rest) (auto simp: await_Nil) }
next
  case (Cons p bad)
  { case 1 then show ?case using Cons.IH(1) [of p] by (simp add: await_Nil) }
  { case 2 then show ?case using Cons.IH(2) [of p] by (simp add: await_Nil) }
qed





lemma minedBlocks_mineArea_after: "minedBlocks (mineArea_after i e s) = i + 1"
  by (simp add: mineArea_after_def Let_def minedBlocks_await emit_def)

lemma mineArea_body_Go:
  "mineArea_body cfg ps a i e s = Some (Go s') \<Longrightarrow> minedBlocks s' = i + 1"
  by (auto simp: mineArea_body_def minedBlocks_mineArea_after split: option.splits Flow.splits)


lemma mineBlock_three_failures:
  assumes "attempt pos a e1 s = Retry s1" "attempt pos a e2 s1 = Retry s2"
    "attempt pos a e3 s2 = Retry s3"
  shows "mineBlock pos a (e1 # e2 # e3 # rest) s = Some (GaveUp, s3)"
    and "minedBlocks s3 = minedBlocks s"
proof -
  show "mineBlock pos a (e1 # e2 # e3 # rest) s = Some (GaveUp, s3)"
    using assms by (cases rest) (simp_all add: mineBlock_def)
  from attempt_post_attempt [of a s pos e1] attempt_post_attempt [of a s1 pos e2]
    attempt_post_attempt [of a s2 pos e3] assms
  show "minedBlocks s3 = minedBlocks s" by (simp add: attempt_post_def)
qed

lemma mineArea_body_after:
  assumes "mineArea_before cfg a i e t = Some (Go t1)"
    "mineBlock (ps ! i) a (i_attempts e) t1 = Some (x, t2)"
  shows "mineArea_body cfg ps a i e t = Some (Go (mineArea_after i e t2))"
  using assms by (simp add: mineArea_body_def)

lemma example_three_failures:
  "mineArea_body example_config (generateZigzagPositions example_area) example_area 2
     (example_iter [example_attempt DigRejected, example_attempt DigTimedOut,
        example_attempt DigRejected]) example_engine
   = Some (Go (example_engine\<lparr>currentTool := Some ''Hand'', minedBlocks := 3,
        emitted := [MiningProgress 3 4]\<rparr>))"
  by code_simp

text \<open>
  Claim C2. A target is attempted at most three times: \<^verbatim>\<open>mineBlock\<close> never looks at a
  fourth pass, and after three failed passes it returns. Whenever \<^verbatim>\<open>mineBlock\<close> returns
  for the target at index \<open>i\<close>, whatever its exit, the iteration goes on to set the mined
  counter to \<open>i + 1\<close>, one more than it was when the counter stood at \<open>i\<close>, and the loop
  continues at index \<open>i + 1\<close>.
\<close>

theorem bounded_retry_then_advance:
  "mineBlock pos a envs s = mineBlock pos a (take 3 envs) s
   \<and> (attempt pos a e1 s = Retry s1 \<and> attempt pos a e2 s1 = Retry s2
        \<and> attempt pos a e3 s2 = Retry s3
      \<longrightarrow> mineBlock pos a (e1 # e2 # e3 # rest) s = Some (GaveUp, s3)
        \<and> minedBlocks s3 = minedBlocks s)
   \<and> (mineArea_before cfg a i e t = Some (Go t1)
        \<and> mineBlock (ps ! i) a (i_attempts e) t1 = Some (x, t2)
      \<longrightarrow> mineArea_body cfg ps a i e t = Some (Go (mineArea_after i e t2))
        \<and> minedBlocks (mineArea_after i e t2) = i + 1)
   \<and> (mineArea_body cfg ps a i e t = Some (Go t') \<longrightarrow> minedBlocks t' = i + 1)
   \<and> (minedBlocks t = i \<and> mineArea_body cfg ps a i e t = Some (Go t')
      \<longrightarrow> minedBlocks t' = minedBlocks t + 1)
   \<and> (i < length ps \<and> mineArea_body cfg ps a i e t = Some (Go t')
      \<longrightarrow> mineArea_loop cfg ps a i (e # es) t = mineArea_loop cfg ps a (i + 1) es t')"
proof (intro conjI impI)
  show "mineBlock pos a envs s = mineBlock pos a (take 3 envs) s"
    using mineBlock_loop_take [of 0 pos a envs s] by (simp add: mineBlock_def)
next
  assume r: "attempt pos a e1 s = Retry s1 \<and> attempt pos a e2 s1 = Retry s2
        \<and> attempt pos a e3 s2 = Retry s3"
  then show "mineBlock pos a (e1 # e2 # e3 # rest) s = Some (GaveUp, s3)"
    by (simp add: mineBlock_three_failures(1))
  from r show "minedBlocks s3 = minedBlocks s"
    using mineBlock_three_failures(2) [of pos a e1 s s1 e2 s2 e3 s3] by simp
next
  assume "mineArea_before cfg a i e t = Some (Go t1)
        \<and> mineBlock (ps ! i) a (i_attempts e) t1 = Some (x, t2)"
  then show "mineArea_body cfg ps a i e t = Some (Go (mineArea_after i e t2))"
    by (simp add: mineArea_body_after)
  show "minedBlocks (mineArea_after i e t2) = i + 1"
    by (rule minedBlocks_mineArea_after)
next
  assume "mineArea_body cfg ps a i e t = Some (Go t')"
  then show "minedBlocks t' = i + 1" by (rule mineArea_body_Go)
next
  assume "minedBlocks t = i \<and> mineArea_body cfg ps a i e t = Some (Go t')"
  then show "minedBlocks t' = minedBlocks t + 1"
    using mineArea_body_Go [of cfg ps a i e t t'] by simp
next
  assume "i < length ps \<and> mineArea_body cfg ps a i e t = Some (Go t')"
  then show "mineArea_loop cfg ps a i (e # es) t = mineArea_loop cfg ps a (i + 1) es t'"
    by simp
qed

lemma example_failed_attempts:
  "attempt (Vec3 1 0 1) example_area (example_attempt DigRejected) example_engine
     = Retry (example_engine\<lparr>currentTool := Some ''Hand''\<rparr>)"
  "attempt (Vec3 1 0 1) example_area (example_attempt DigTimedOut)
       (example_engine\<lparr>currentTool := Some ''Hand''\<rparr>)
     = Retry (example_engine\<lparr>currentTool := Some ''Hand''\<rparr>)"
  "attempt (Vec3 1 0 1) example_area (example_attempt DigRejected)
       (example_engine\<lparr>currentTool := Some ''Hand''\<rparr>)
     = Retry (example_engine\<lparr>currentTool := Some ''Hand''\<rparr>)"
  by code_simp+

lemma example_before_failures:
  "mineArea_before example_config example_area 2
     (example_iter [example_attempt DigRejected, example_attempt DigTimedOut,
        example_attempt DigRejected]) example_engine = Some (Go example_engine)"
  by code_simp

lemma example_length: "length (generateZigzagPositions example_area) = 4"
  by code_simp

theorem bounded_retry_then_advance_witness:
  "attempt (Vec3 1 0 1) example_area (example_attempt DigRejected) example_engine
     = Retry (example_engine\<lparr>currentTool := Some ''Hand''\<rparr>)
   \<and> attempt (Vec3 1 0 1) example_area (example_attempt DigTimedOut)
       (example_engine\<lparr>currentTool := Some ''Hand''\<rparr>)
     = Retry (example_engine\<lparr>currentTool := Some ''Hand''\<rparr>)
   \<and> mineBlock (Vec3 1 0 1) example_area
       [example_attempt DigRejected, example_attempt DigTimedOut, example_attempt DigRejected,
        example_attempt DigResolved] example_engine
     = Some (GaveUp, example_engine\<lparr>currentTool := Some ''Hand''\<rparr>)
   \<and> (2::nat) < length (generateZigzagPositions example_area)
   \<and> minedBlocks example_engine = 2
   \<and> mineArea_before example_config example_area 2
       (example_iter [example_attempt DigRejected, example_attempt DigTimedOut,
          example_attempt DigRejected]) example_engine = Some (Go example_engine)
   \<and> mineArea_body example_config (generateZigzagPositions example_area) example_area 2
       (example_iter [example_attempt DigRejected, example_attempt DigTimedOut,
          example_attempt DigRejected]) example_engine
     = Some (Go (example_engine\<lparr>currentTool := Some ''Hand'', minedBlocks := 3,
          emitted := [MiningProgress 3 4]\<rparr>))
   \<and> minedBlocks (example_engine\<lparr>currentTool := Some ''Hand'', minedBlocks := 3,
          emitted := [MiningProgress 3 4]\<rparr>) = minedBlocks example_engine + 1"
proof -
  have m: "minedBlocks example_engine = 2" by (simp add: example_engine_def)
  have l: "(2::nat) < length (generateZigzagPositions example_area)"
    by (simp add: example_length)
  from bounded_retry_then_advance [where t = example_engine and i = 2
      and cfg = example_config and ps = "generateZigzagPositions example_area"
      and a = example_area
      and e = "example_iter [example_attempt DigRejected, example_attempt DigTimedOut,
          example_attempt DigRejected]"
      and t' = "example_engine\<lparr>currentTool := Some ''Hand'', minedBlocks := 3,
          emitted := [MiningProgress 3 4]\<rparr>"
      and pos = "Vec3 1 0 1" and s = example_engine
      and ?e1.0 = "example_attempt DigRejected" and ?e2.0 = "example_attempt DigTimedOut"
      and ?e3.0 = "example_attempt DigRejected"
      and ?s1.0 = "example_engine\<lparr>currentTool := Some ''Hand''\<rparr>"
      and ?s2.0 = "example_engine\<lparr>currentTool := Some ''Hand''\<rparr>"
      and ?s3.0 = "example_engine\<lparr>currentTool := Some ''Hand''\<rparr>"
      and rest = "[example_attempt DigResolved]"]
    m l example_three_failures example_failed_attempts example_before_failures
  show ?thesis by simp
qed

lemma autoPause_enter_fields:
  "status (autoPause_enter s) = Paused"
  "emitted (autoPause_enter s) = emitted s @ [MiningPaused ''high_ping'']"
  "minedBlocks (autoPause_enter s) = minedBlocks s"
  by (simp_all add: autoPause_enter_def emit_def)

lemma autoPause_leave_enter_fields:
  "status (autoPause_leave (autoPause_enter s)) = Mining"
  "emitted (autoPause_leave (autoPause_enter s)) = emitted s @ [MiningPaused ''high_ping'']"
  "minedBlocks (autoPause_leave (autoPause_enter s)) = minedBlocks s"
  by (simp_all add: autoPause_leave_def autoPause_enter_def emit_def)

lemma example_not_paused_at_1000:
  "autoPause \<lparr>currentPing = 1000, tps = 20\<rparr> [] example_engine = Some example_engine"
  by code_simp

text \<open>
  Claim C3, as stated, fails at its own input: at a latency of exactly 1000 ms and a
  tick rate of 20 the trigger is false, and an engine that is mining goes through the
  auto-pause section unchanged.
\<close>

theorem latency_1000_does_not_pause:
  "shouldAutoPause \<lparr>currentPing = 1000, tps = 20\<rparr> = False
   \<and> status example_engine = Mining
   \<and> autoPause \<lparr>currentPing = 1000, tps = 20\<rparr> [] example_engine = Some example_engine"
  using example_not_paused_at_1000 by (simp add: shouldAutoPause_def example_engine_def)

text \<open>
  Claim C3, amended. The trigger is true exactly when the latency is strictly above
  1000 ms or the tick rate below 5. When it is true and the engine is mining, the engine
  becomes paused and emits the pause event with reason \<open>high_ping\<close>; it stays in the wait
  for as long as every reading keeps the trigger true; at the first reading that clears
  it (nobody having intervened) it is mining again, with the mined counter unchanged. The
  mined counter is unchanged by the section in every case.
\<close>

theorem auto_pause_round_trip:
  "shouldAutoPause pm = (currentPing pm > 1000 \<or> tps pm < 5)
   \<and> (status s = Mining \<and> shouldAutoPause pm \<longrightarrow>
        status (autoPause_enter s) = Paused
        \<and> emitted (autoPause_enter s) = emitted s @ [MiningPaused ''high_ping'']
        \<and> minedBlocks (autoPause_enter s) = minedBlocks s
        \<and> ((\<forall>p\<in>set bad. shouldAutoPause p) \<longrightarrow> autoPause pm (map (Pair []) bad) s = None)
        \<and> ((\<forall>p\<in>set bad. shouldAutoPause p) \<and> \<not> shouldAutoPause good \<longrightarrow>
             autoPause pm (map (Pair []) bad @ ([], good) # rest) s
               = Some (autoPause_leave (autoPause_enter s))
             \<and> status (autoPause_leave (autoPause_enter s)) = Mining
             \<and> minedBlocks (autoPause_leave (autoPause_enter s)) = minedBlocks s
             \<and> emitted (autoPause_leave (autoPause_enter s))
                 = emitted s @ [MiningPaused ''high_ping'']))
   \<and> (autoPause pm waits s = Some s' \<longrightarrow> minedBlocks s' = minedBlocks s)"
proof (intro conjI impI)
  show "shouldAutoPause pm = (currentPing pm > 1000 \<or> tps pm < 5)"
    by (simp add: shouldAutoPause_def)
next
  assume a: "status s = Mining \<and> shouldAutoPause pm"
  show "status (autoPause_enter s) = Paused"
    "emitted (autoPause_enter s) = emitted s @ [MiningPaused ''high_ping'']"
    "minedBlocks (autoPause_enter s) = minedBlocks s"
    by (rule autoPause_enter_fields)+
  {
    assume b: "\<forall>p\<in>set bad. shouldAutoPause p"
    from a b show "autoPause pm (map (Pair []) bad) s = None"
      by (simp add: autoPause_def autoPause_wait_bad(1) autoPause_enter_fields(1))
  }
  {
    assume b: "(\<forall>p\<in>set bad. shouldAutoPause p) \<and> \<not> shouldAutoPause good"
    from a b show "autoPause pm (map (Pair []) bad @ ([], good) # rest) s
               = Some (autoPause_leave (autoPause_enter s))"
      by (simp add: autoPause_def autoPause_wait_bad(2) autoPause_enter_fields(1))
    show "status (autoPause_leave (autoPause_enter s)) = Mining"
      "minedBlocks (autoPause_leave (autoPause_enter s)) = minedBlocks s"
      "emitted (autoPause_leave (autoPause_enter s)) = emitted s @ [MiningPaused ''high_ping'']"
      by (rule autoPause_leave_enter_fields)+
  }
next
  assume "autoPause pm waits s = Some s'"
  then show "minedBlocks s' = minedBlocks s" by (rule minedBlocks_autoPause)
qed

theorem auto_pause_round_trip_witness:
  "status example_engine = Mining
   \<and> shouldAutoPause \<lparr>currentPing = 1001, tps = 20\<rparr>
   \<and> shouldAutoPause \<lparr>currentPing = 1500, tps = 20\<rparr>
   \<and> \<not> shouldAutoPause \<lparr>currentPing = 80, tps = 20\<rparr>
   \<and> autoPause \<lparr>currentPing = 1001, tps = 20\<rparr> [([], \<lparr>currentPing = 1500, tps = 20\<rparr>)]
       example_engine = None
   \<and> autoPause \<lparr>currentPing = 1001, tps = 20\<rparr>
       [([], \<lparr>currentPing = 1500, tps = 20\<rparr>), ([], \<lparr>currentPing = 80, tps = 20\<rparr>)]
       example_engine
     = Some (autoPause_leave (autoPause_enter example_engine))
   \<and> status (autoPause_leave (autoPause_enter example_engine)) = Mining
   \<and> minedBlocks (autoPause_leave (autoPause_enter example_engine)) = 2"
proof -
  have h: "status example_engine = Mining" "minedBlocks example_engine = 2"
    by (simp_all add: example_engine_def)
  have p: "shouldAutoPause \<lparr>currentPing = 1001, tps = 20\<rparr>"
    "shouldAutoPause \<lparr>currentPing = 1500, tps = 20\<rparr>"
    "\<not> shouldAutoPause \<lparr>currentPing = 80, tps = 20\<rparr>"
    by (simp_all add: shouldAutoPause_def)
  from auto_pause_round_trip [where s = example_engine
      and pm = "\<lparr>currentPing = 1001, tps = 20\<rparr>"
      and bad = "[\<lparr>currentPing = 1500, tps = 20\<rparr>]"
      and good = "\<lparr>currentPing = 80, tps = 20\<rparr>" and rest = "[]"] h p
  show ?thesis by simp
qed

lemma waitAfterDig_iff:
  "waitAfterDig pm seen = (\<exists>k<getAdaptiveWaitTicks pm. block_gone (seen k))"
  by (simp add: waitAfterDig_def waitForBlockBreak_def waitForBlockBreak_loop_iff)

lemma attempt_dig_ignores_confirmation:
  "attempt_dig pos a (e\<lparr>a_confirmPm := pm, a_confirmSeen := seen\<rparr>) b s = attempt_dig pos a e b s"
  by (auto simp: attempt_dig_def attempt_failed_def Let_def split: DigOutcome.splits)

lemma attempt_target_ignores_confirmation:
  "attempt_target pos a (e\<lparr>a_confirmPm := pm, a_confirmSeen := seen\<rparr>) s
     = attempt_target pos a e s"
  by (auto simp: attempt_target_def attempt_dig_ignores_confirmation Let_def
      split: option.splits)

lemma attempt_ignores_confirmation:
  "attempt pos a (e\<lparr>a_confirmPm := pm, a_confirmSeen := seen\<rparr>) s = attempt pos a e s"
  by (auto simp: attempt_def attempt_target_ignores_confirmation Let_def split: option.splits)

lemma attempt_dig_success:
  assumes "\<not> a_lookAtThrows e" "a_distAfter e \<le> REACH_DISTANCE" "a_canSeeAfter e"
    "a_digOutcome e = DigResolved"
  shows "attempt_dig pos a e b s =
     Exit Success (emit (MiningBlockMined pos (bname b))
       (save a (minedBlocks s) (await (a_confirm e) (await (a_dig e) (await (a_lookAt e) s)))))"
  using assms by (simp add: attempt_dig_def Let_def minedBlocks_await)

lemma example_unconfirmed_wait:
  "waitAfterDig (a_confirmPm (example_attempt DigResolved))
      (a_confirmSeen (example_attempt DigResolved)) = False"
  by code_simp

lemma example_unconfirmed_success:
  "mineBlock (Vec3 1 0 1) example_area [example_attempt DigResolved] example_engine
      = Some (Success, example_engine\<lparr>currentTool := Some ''Hand'',
           stateFile := Some \<lparr>saved_area = example_area, saved_minedBlocks = 2\<rparr>,
           emitted := [MiningBlockMined (Vec3 1 0 1) ''stone'']\<rparr>)"
  by code_simp

text \<open>
  Claim C4, as stated, fails: in the example pass the dig completes, the block is still
  there on both polled ticks, so the confirmation is false; yet \<^verbatim>\<open>mineBlock\<close> returns
  through its success exit after this single pass, with the progress saved and the
  block-mined event emitted.
\<close>

theorem unconfirmed_dig_counted_as_success:
  "waitAfterDig (a_confirmPm (example_attempt DigResolved))
      (a_confirmSeen (example_attempt DigResolved)) = False
   \<and> mineBlock (Vec3 1 0 1) example_area [example_attempt DigResolved] example_engine
      = Some (Success, example_engine\<lparr>currentTool := Some ''Hand'',
           stateFile := Some \<lparr>saved_area = example_area, saved_minedBlocks = 2\<rparr>,
           emitted := [MiningBlockMined (Vec3 1 0 1) ''stone'']\<rparr>)"
  using example_unconfirmed_wait example_unconfirmed_success by simp

text \<open>
  Claim C4, amended. The confirmation waiter polls tick by tick, at most the adaptive
  number of ticks (6 above 400 ms of latency, 4 above 200, 3 above 100, else 2), and
  returns whether the position was seen empty on one of them. The mining pass awaits it
  and does not use the answer: the outcome of a pass is the same for every course of the
  confirmation, and a pass whose dig completes in reach returns through the success exit
  with the progress saved and the block-mined event emitted.
\<close>

theorem confirmation_polled_result_unused:
  "waitAfterDig pm seen = (\<exists>k<getAdaptiveWaitTicks pm. block_gone (seen k))
   \<and> getAdaptiveWaitTicks pm =
       (if currentPing pm > 400 then 6 else if currentPing pm > 200 then 4
        else if currentPing pm > 100 then 3 else 2)
   \<and> attempt pos a (e\<lparr>a_confirmPm := pm, a_confirmSeen := seen\<rparr>) s = attempt pos a e s
   \<and> (\<not> a_lookAtThrows e \<and> a_distAfter e \<le> REACH_DISTANCE \<and> a_canSeeAfter e
        \<and> a_digOutcome e = DigResolved
      \<longrightarrow> attempt_dig pos a e b s =
            Exit Success (emit (MiningBlockMined pos (bname b))
              (save a (minedBlocks s)
                 (await (a_confirm e) (await (a_dig e) (await (a_lookAt e) s))))))"
proof (intro conjI impI)
  show "waitAfterDig pm seen = (\<exists>k<getAdaptiveWaitTicks pm. block_gone (seen k))"
    by (rule waitAfterDig_iff)
  show "getAdaptiveWaitTicks pm =
       (if currentPing pm > 400 then 6 else if currentPing pm > 200 then 4
        else if currentPing pm > 100 then 3 else 2)"
    by (simp add: getAdaptiveWaitTicks_def Let_def)
  show "attempt pos a (e\<lparr>a_confirmPm := pm, a_confirmSeen := seen\<rparr>) s = attempt pos a e s"
    by (rule attempt_ignores_confirmation)
next
  assume "\<not> a_lookAtThrows e \<and> a_distAfter e \<le> REACH_DISTANCE \<and> a_canSeeAfter e
        \<and> a_digOutcome e = DigResolved"
  then show "attempt_dig pos a e b s =
            Exit Success (emit (MiningBlockMined pos (bname b))
              (save a (minedBlocks s)
                 (await (a_confirm e) (await (a_dig e) (await (a_lookAt e) s)))))"
    by (simp add: attempt_dig_success)
qed

theorem confirmation_polled_result_unused_witness:
  "\<not> a_lookAtThrows (example_attempt DigResolved)
   \<and> a_distAfter (example_attempt DigResolved) \<le> REACH_DISTANCE
   \<and> a_canSeeAfter (example_attempt DigResolved)
   \<and> a_digOutcome (example_attempt DigResolved) = DigResolved
   \<and> attempt_dig (Vec3 1 0 1) example_area (example_attempt DigResolved)
        \<lparr>bname = ''stone'', boundingBox = ''block''\<rparr> example_engine
      = Exit Success (example_engine\<lparr>
           stateFile := Some \<lparr>saved_area = example_area, saved_minedBlocks = 2\<rparr>,
           emitted := [MiningBlockMined (Vec3 1 0 1) ''stone'']\<rparr>)"
proof -
  have h: "\<not> a_lookAtThrows (example_attempt DigResolved)
      \<and> a_distAfter (example_attempt DigResolved) \<le> REACH_DISTANCE
      \<and> a_canSeeAfter (example_attempt DigResolved)
      \<and> a_digOutcome (example_attempt DigResolved) = DigResolved"
    by (simp add: example_attempt_def REACH_DISTANCE_def)
  have c: "a_confirm (example_attempt DigResolved) = []" "a_dig (example_attempt DigResolved) = []"
    "a_lookAt (example_attempt DigResolved) = []"
    by (simp_all add: example_attempt_def)
  have m: "minedBlocks example_engine = 2" "emitted example_engine = []"
    by (simp_all add: example_engine_def)
  from confirmation_polled_result_unused [where e = "example_attempt DigResolved"
      and pos = "Vec3 1 0 1" and a = example_area and s = example_engine
      and b = "\<lparr>bname = ''stone'', boundingBox = ''block''\<rparr>"] h
  have "attempt_dig (Vec3 1 0 1) example_area (example_attempt DigResolved)
        \<lparr>bname = ''stone'', boundingBox = ''block''\<rparr> example_engine
      = Exit Success (emit (MiningBlockMined (Vec3 1 0 1) ''stone'')
          (save example_area 2 example_engine))"
    by (simp add: c m await_Nil)
  then show ?thesis using h m by (simp add: emit_def save_def)
qed















end
